theory Spec2Isabelle
  imports Main
begin

section \<open>convertDoxygen.py: the conversion driver\<close>

text \<open>
  The program is a script: it reads the command line, deletes stale output files, imports
  the writer plugin for the requested format, obtains the ordered DocElement sequence
  (from the pickle cache or by parsing the Doxygen XML and traversing it once) and hands
  that sequence to one writer per module.  The embedding follows the script line by line.
  Its effects are explicit: the file system is a map from paths to files, every call of an
  external collaborator is an event of the trace, and every way the script stops is an
  outcome.
\<close>

subsection \<open>Python strings and paths\<close>

type_synonym path = string

definition truthy :: "string option \<Rightarrow> bool" where
  \<comment> \<open>Python truth value of a value that is None or a str: None and the empty string are false.\<close>
  "truthy v = (case v of None \<Rightarrow> False | Some s \<Rightarrow> s \<noteq> [])"

definition endswith :: "string \<Rightarrow> string \<Rightarrow> bool" where
  "endswith s suf = (length suf \<le> length s \<and> drop (length s - length suf) s = suf)"

definition startswith :: "string \<Rightarrow> string \<Rightarrow> bool" where
  "startswith s pre = (take (length pre) s = pre)"

fun split_char :: "char \<Rightarrow> string \<Rightarrow> string list" where
  \<comment> \<open>str.split(sep) for a one-character separator: every occurrence cuts, empty pieces are kept.\<close>
  "split_char c [] = [[]]"
| "split_char c (x # xs) =
     (if x = c then [] # split_char c xs
      else (case split_char c xs of
              [] \<Rightarrow> [[x]]
            | w # ws \<Rightarrow> (x # w) # ws))"

definition replace_char :: "char \<Rightarrow> string \<Rightarrow> string \<Rightarrow> string" where
  \<comment> \<open>str.replace(old, new) for a one-character old.\<close>
  "replace_char c new s = concat (map (\<lambda>x. if x = c then new else [x]) s)"

definition os_path_join :: "path \<Rightarrow> path \<Rightarrow> path" where
  \<comment> \<open>posixpath.join on two components.\<close>
  "os_path_join a b =
     (if startswith b ''/'' then b
      else if a = [] \<or> endswith a ''/'' then a @ b
      else a @ ''/'' @ b)"

fun digits_of :: "nat \<Rightarrow> string" where
  \<comment> \<open>The decimal numeral that \<open>%d\<close> prints.\<close>
  "digits_of n =
     (if n < 10 then [char_of (48 + n)]
      else digits_of (n div 10) @ [char_of (48 + n mod 10)])"

definition quoted :: "string \<Rightarrow> string" where
  \<comment> \<open>\<open>'%s'\<close>: the string between two apostrophes.\<close>
  "quoted s = [CHR 0x27] @ s @ [CHR 0x27]"

subsection \<open>Files, writers, events and outcomes\<close>

text \<open>
  A file is a pickle of a Python object that is None or a DocElement sequence (what
  \<open>pickle.load\<close> gives back), a file that cannot be opened for reading, or any other
  content (XML, generated documentation, a damaged pickle).  DocElement itself is opaque to
  the script, so it is the type parameter \<open>'d\<close>.
\<close>

datatype 'd content = Pickled "'d list option" | Unreadable | Raw string

type_synonym 'd fs = "path \<rightharpoonup> 'd content"

definition isfile :: "'d fs \<Rightarrow> path \<Rightarrow> bool" where
  "isfile fs p = (fs p \<noteq> None)"

definition pickle_load :: "'d fs \<Rightarrow> path \<Rightarrow> string + 'd list option" where
  \<comment> \<open>\<open>open(p, "rb")\<close> followed by \<open>pickle.load\<close>: the object, or the exception raised.\<close>
  "pickle_load fs p =
     (case fs p of
        None \<Rightarrow> Inl ''FileNotFoundError''
      | Some Unreadable \<Rightarrow> Inl ''PermissionError''
      | Some (Raw s) \<Rightarrow> Inl ''UnpicklingError''
      | Some (Pickled v) \<Rightarrow> Inr v)"

definition pickle_dump :: "'d fs \<Rightarrow> path \<Rightarrow> 'd list \<Rightarrow> 'd fs" where
  \<comment> \<open>Modelled from the spec: \<open>open(p, "wb")\<close> followed by \<open>pickle.dump\<close>.  DocElement
      is not in the source tree; the spec has the cache file be a snapshot of the ordered
      DocElement sequence, so the file written holds the sequence itself.\<close>
  "pickle_dump fs p ds = fs(p \<mapsto> Pickled (Some ds))"

record writer =
  w_class :: string   \<comment> \<open>the module the Writer class was taken from\<close>
  w_package :: string
  w_module :: string

datatype import_result = Imported | ImportError | OtherException string

datatype 'd event =
    SetDebugMode bool
  | Print string
  | Debug string
  | DebugTraceback string
  | OsRemove path
  | SysPathAppend path
  | AddDllDirectory path
  | ImportModule string import_result
  | NewParser
  | PickleLoad path "string + 'd list option"
  | ParseIndexFile path bool
  | ParseFile path bool
  | NewWriter writer
  | Traverse writer "'d list"
  | PickleDump path "'d list"
  | Generate writer path "'d list"

datatype outcome =
    Completed
  | Fatal_Usage
  | Fatal_Error string
  | Uncaught string

type_synonym 'd result = "outcome \<times> 'd event list \<times> 'd fs"

definition outcome_of :: "'d result \<Rightarrow> outcome" where
  "outcome_of r = fst r"

definition trace_of :: "'d result \<Rightarrow> 'd event list" where
  "trace_of r = fst (snd r)"

definition files_of :: "'d result \<Rightarrow> 'd fs" where
  "files_of r = snd (snd r)"

definition emit :: "'d event list \<Rightarrow> 'd result \<Rightarrow> 'd result" where
  \<comment> \<open>The events that happened before the rest of the run.\<close>
  "emit evs r = (fst r, evs @ fst (snd r), snd (snd r))"

definition exits_nonzero :: "outcome \<Rightarrow> bool" where
  \<comment> \<open>Modelled from the spec: cdUtils.Usage and cdUtils.Error are not in the source tree;
      the spec has every fatal error produce a message and exit non-zero.  An uncaught
      exception ends a Python process with status 1.\<close>
  "exits_nonzero oc = (oc \<noteq> Completed)"

subsection \<open>The collaborators of the script\<close>

text \<open>
  Everything the script calls and does not define is a field of the environment: the
  command line as seen through cdUtils, the host, importlib, the Parser of cdParser (which
  reads the Doxygen XML, so the XML sources are the environment's too) and the Writer of
  the plugin.  The file system of the model holds what the script itself reads, writes or
  deletes: the pickle cache and the output files.
\<close>

record ('d, 'p) env =
  cmd_value :: "string list \<Rightarrow> string option"
    \<comment> \<open>the value the command line gives to the first of these option names, if any\<close>
  cmd_flag :: "string list \<Rightarrow> bool"
    \<comment> \<open>whether one of these option names is on the command line\<close>
  os_name :: string
  os_sep :: string
  isdir :: "path \<Rightarrow> bool"
  import_module :: "string \<Rightarrow> import_result"
    \<comment> \<open>\<open>importlib.import_module(name, package="doxygenlib")\<close>\<close>
  new_Parser :: 'p
  parse :: "path \<Rightarrow> 'p \<Rightarrow> bool \<times> 'p"
  parseDoxygenIndexFile :: "path \<Rightarrow> 'p \<Rightarrow> bool \<times> 'p"
  traverse :: "'p \<Rightarrow> writer \<Rightarrow> 'd list"
  writer_init :: "writer \<Rightarrow> string option"
    \<comment> \<open>the constructor of Writer: None, or the message it fails with\<close>
  generate :: "writer \<Rightarrow> path \<Rightarrow> 'd list \<Rightarrow> string + string"
    \<comment> \<open>the exception raised, or the text written to the output path\<close>

definition GetArgValue :: "('d, 'p) env \<Rightarrow> string list \<Rightarrow> string option \<Rightarrow> string option" where
  \<comment> \<open>Modelled from the spec: cdUtils.GetArgValue is not in the source tree; the spec leaves
      command-line parsing to an external collaborator, so the lookup is the environment's
      and only the default of the call site is applied here.\<close>
  "GetArgValue e names dflt = (case cmd_value e names of Some v \<Rightarrow> Some v | None \<Rightarrow> dflt)"

definition GetArg :: "('d, 'p) env \<Rightarrow> string list \<Rightarrow> bool" where
  \<comment> \<open>Modelled from the spec: cdUtils.GetArg is not in the source tree; see GetArgValue.\<close>
  "GetArg e names = cmd_flag e names"

subsection \<open>The script\<close>

text \<open>The globals read from the command line (lines 31 to 46).\<close>

record options =
  xml_file :: "string option"
  xml_file_dir :: "string option"
  xml_index_file :: "string option"
  output_file :: "string option"
  output_format :: "string option"
  python_path :: "string option"
  dll_path :: "string option"
  use_cached_parsing :: bool
  debug_mode :: bool
  show_help :: bool
  packageName :: "string option"
  modules :: "string option"

definition read_options :: "('d, 'p) env \<Rightarrow> options" where
  "read_options e =
     \<lparr> xml_file = GetArgValue e [''--input'', ''-i''] None,
       xml_file_dir = GetArgValue e [''--inputDir''] None,
       xml_index_file = GetArgValue e [''--inputIndex''] None,
       output_file = GetArgValue e [''--output'', ''-o''] None,
       output_format = GetArgValue e [''--format'', ''-f''] (Some ''Docstring''),
       python_path = GetArgValue e [''--pythonPath''] None,
       dll_path = GetArgValue e [''--dllPath''] None,
       use_cached_parsing = GetArg e [''--cacheParsing'', ''-c''],
       debug_mode = GetArg e [''--debug'', ''-d''],
       show_help = GetArg e [''--help'', ''-h''],
       packageName = GetArgValue e [''--package'', ''-p''] None,
       modules = GetArgValue e [''--module'', ''-m''] None \<rparr>"

definition module_output_file :: "string \<Rightarrow> string list \<Rightarrow> string \<Rightarrow> path" where
  \<comment> \<open>Lines 56 to 63: the output file of one module.\<close>
  "module_output_file out module_list moduleName =
     (if length module_list = 1 \<and> endswith out ''.py'' then out
      else os_path_join (os_path_join out moduleName) ''__DOC.py'')"

definition module_list_of :: "string \<Rightarrow> string list" where
  \<comment> \<open>Line 53: the non-empty pieces of \<open>--module\<close> between commas.\<close>
  "module_list_of mods = filter (\<lambda>x. x \<noteq> []) (split_char (CHR '','') mods)"

definition output_files_of :: "string \<Rightarrow> string list \<Rightarrow> path list" where
  \<comment> \<open>Lines 54 to 65: one output file per module, in order (so the lengths agree).\<close>
  "output_files_of out module_list = map (module_output_file out module_list) module_list"

definition plugin_module :: "string \<Rightarrow> string" where
  \<comment> \<open>Line 89: the module imported for a format, relative to the package doxygenlib.\<close>
  "plugin_module fmt = ''.cdWriter'' @ fmt"

fun remove_existing :: "path list \<Rightarrow> 'd fs \<Rightarrow> 'd event list \<times> 'd fs" where
  \<comment> \<open>Lines 69 to 71: delete the output files that exist.\<close>
  "remove_existing [] fs = ([], fs)"
| "remove_existing (f # rest) fs =
     (if isfile fs f then
        (case remove_existing rest (fs(f := None)) of (evs, fs') \<Rightarrow> (OsRemove f # evs, fs'))
      else remove_existing rest fs)"

definition add_dll_directories :: "('d, 'p) env \<Rightarrow> string option \<Rightarrow> 'd event list" where
  \<comment> \<open>Lines 80 to 84.\<close>
  "add_dll_directories e dll =
     (case dll of
        None \<Rightarrow> []
      | Some d \<Rightarrow>
          if os_name e = ''nt'' then
            map AddDllDirectory
              (filter (isdir e) (split_char (CHR '';'') (replace_char (CHR ''/'') (os_sep e) d)))
          else [])"

definition pickle_path :: "string option \<Rightarrow> string option \<Rightarrow> path option" where
  \<comment> \<open>Lines 104 to 107; None when \<open>xml_file + ".pickle"\<close> is None + str, a TypeError.\<close>
  "pickle_path index_file file =
     (case index_file of
        Some i \<Rightarrow> Some (i @ ''.pickle'')
      | None \<Rightarrow> (case file of Some f \<Rightarrow> Some (f @ ''.pickle'') | None \<Rightarrow> None))"

definition read_cache :: "bool \<Rightarrow> path \<Rightarrow> 'd fs \<Rightarrow> 'd list option \<times> 'd event list" where
  \<comment> \<open>Lines 112 to 119: the value of docList afterwards, and what was logged.\<close>
  "read_cache cached pp fs =
     (if cached \<and> isfile fs pp then
        (case pickle_load fs pp of
           Inr docList \<Rightarrow>
             (docList,
              [PickleLoad pp (Inr docList), Debug (''Read pre-parsed file: '' @ quoted pp)])
         | Inl exc \<Rightarrow>
             (None,
              [PickleLoad pp (Inl exc), Debug (''Error reading pre-parsed file: '' @ quoted pp),
               DebugTraceback exc]))
      else (None, []))"

definition parse_input ::
  "('d, 'p) env \<Rightarrow> string option \<Rightarrow> string option \<Rightarrow> 'd list option \<Rightarrow> 'p
     \<Rightarrow> outcome option \<times> 'p \<times> 'd event list" where
  \<comment> \<open>Lines 121 to 127: the fatal outcome if any, the parser afterwards, the calls made.
      Modelled from the spec: the Parser is not in the source tree; the spec has parse and
      the index parse return a boolean and never raise.\<close>
  "parse_input e index_file file docList parser =
     (if docList = None then
        (case index_file of
           Some i \<Rightarrow>
             (case parseDoxygenIndexFile e i parser of (ok, parser') \<Rightarrow>
                (if \<not> ok then Some (Fatal_Error (''Could not parse XML index file: '' @ i))
                 else None,
                 parser', [ParseIndexFile i ok]))
         | None \<Rightarrow>
             (case file of
                Some f \<Rightarrow>
                  (case parse e f parser of (ok, parser') \<Rightarrow>
                     (if \<not> ok then Some (Fatal_Error (''Could not parse XML file: '' @ f))
                      else None,
                      parser', [ParseFile f ok]))
              | None \<Rightarrow> (Some (Uncaught ''TypeError''), parser, [])))
      else (None, parser, []))"

fun module_loop ::
  "('d, 'p) env \<Rightarrow> string \<Rightarrow> string \<Rightarrow> bool \<Rightarrow> path \<Rightarrow> 'p \<Rightarrow> (string \<times> path) list
     \<Rightarrow> 'd list option \<Rightarrow> 'd fs \<Rightarrow> 'd result" where
  \<comment> \<open>Lines 134 to 150, with docList and the file system threaded through the iterations.\<close>
  "module_loop e cls pkg cached pp parser [] docList fs = (Completed, [], fs)"
| "module_loop e cls pkg cached pp parser ((moduleName, out) # rest) docList fs =
     (let w = \<lparr> w_class = cls, w_package = pkg, w_module = moduleName \<rparr> in
      case writer_init e w of
        Some msg \<Rightarrow> (Fatal_Error msg, [NewWriter w], fs)
      | None \<Rightarrow>
          (let first = (docList = None);
               docs = (case docList of None \<Rightarrow> traverse e parser w | Some ds \<Rightarrow> ds);
               evs = [NewWriter w, Debug (''Processing module '' @ moduleName)]
                     @ (if first then
                          [Traverse w docs,
                           Debug (''Processed '' @ digits_of (length docs)
                                  @ '' DocElements from doxygen XML'')]
                          @ (if cached then [PickleDump pp docs] else [])
                        else [])
                     @ [Generate w out docs];
               fs1 = (if first \<and> cached then pickle_dump fs pp docs else fs)
           in case generate e w out docs of
                Inl exc \<Rightarrow> (Uncaught exc, evs, fs1)
              | Inr text \<Rightarrow>
                  emit evs
                    (module_loop e cls pkg cached pp parser rest (Some docs)
                       (fs1(out \<mapsto> Raw text)))))"

definition process ::
  "('d, 'p) env \<Rightarrow> options \<Rightarrow> string \<Rightarrow> string \<Rightarrow> string list \<Rightarrow> path list \<Rightarrow> 'd fs
     \<Rightarrow> 'd result" where
  \<comment> \<open>Lines 100 to 150: cache, parse, and one writer per module.\<close>
  "process e opts cls pkg module_list output_files fs =
     emit [NewParser]
       (case pickle_path (xml_index_file opts) (xml_file opts) of
          None \<Rightarrow> (Uncaught ''TypeError'', [], fs)
        | Some pp \<Rightarrow>
            (case read_cache (use_cached_parsing opts) pp fs of (docList, ev_cache) \<Rightarrow>
               (case parse_input e (xml_index_file opts) (xml_file opts) docList
                       (new_Parser e) of
                  (failed, parser, ev_parse) \<Rightarrow>
                    emit (ev_cache @ ev_parse)
                      (case failed of
                         Some oc \<Rightarrow> (oc, [], fs)
                       | None \<Rightarrow>
                           module_loop e cls pkg (use_cached_parsing opts) pp parser
                             (zip module_list output_files) docList fs))))"

definition convert ::
  "('d, 'p) env \<Rightarrow> options \<Rightarrow> string \<Rightarrow> string \<Rightarrow> string \<Rightarrow> string \<Rightarrow> 'd fs \<Rightarrow> 'd result" where
  \<comment> \<open>Lines 53 to 95: output files, search paths and the writer plugin; then the rest.\<close>
  "convert e opts out pkg mods fmt fs =
     (let module_list = module_list_of mods;
          output_files = output_files_of out module_list;
          cls = plugin_module fmt
      in case remove_existing output_files fs of (removed, fs1) \<Rightarrow>
           emit (removed
                 @ (case python_path opts of None \<Rightarrow> [] | Some p \<Rightarrow> [SysPathAppend p])
                 @ add_dll_directories e (dll_path opts)
                 @ [ImportModule cls (import_module e cls)])
             (case import_module e cls of
                ImportError \<Rightarrow>
                  (Fatal_Error (''No writer plugin exists for format '' @ quoted fmt), [], fs1)
              | OtherException exc \<Rightarrow> (Uncaught exc, [], fs1)
              | Imported \<Rightarrow>
                  emit [Print (''Converting Doxygen comments to '' @ fmt @ '' format...'')]
                    (process e opts cls pkg module_list output_files fs1)))"

definition run :: "('d, 'p) env \<Rightarrow> 'd fs \<Rightarrow> 'd result" where
  \<comment> \<open>The whole script.  After the checks of lines 42 to 50 the four values are strings; the
      last branch is what Python would do with a None there, and is never taken.\<close>
  "run e fs =
     (let opts = read_options e in
      emit [SetDebugMode (debug_mode opts)]
        (if \<not> (truthy (xml_file opts) \<or> truthy (xml_index_file opts))
            \<or> \<not> truthy (output_file opts) \<or> show_help opts
         then (Fatal_Usage, [], fs)
         else if \<not> truthy (packageName opts)
         then (Fatal_Error ''Required option --package not specified'', [], fs)
         else if \<not> truthy (modules opts)
         then (Fatal_Error ''Required option --module not specified'', [], fs)
         else (case (output_file opts, packageName opts, modules opts, output_format opts) of
                 (Some out, Some pkg, Some mods, Some fmt) \<Rightarrow> convert e opts out pkg mods fmt fs
               | _ \<Rightarrow> (Uncaught ''TypeError'', [], fs))))"

subsection \<open>An executable environment\<close>

text \<open>
  A small environment on which the script can be run: the command line is a list of words,
  the XML sources parse to a given sequence of element names, the only plugin is the one for
  Docstring, and a writer writes the names one after the other.
\<close>

fun argv_value :: "string list \<Rightarrow> string list \<Rightarrow> string option" where
  "argv_value (a # v # rest) names =
     (if a \<in> set names then Some v else argv_value (v # rest) names)"
| "argv_value _ names = None"

definition sample_env :: "string list \<Rightarrow> string list \<Rightarrow> (string, string list) env" where
  "sample_env argv src =
     \<lparr> cmd_value = argv_value argv,
       cmd_flag = (\<lambda>names. list_ex (\<lambda>a. a \<in> set names) argv),
       os_name = ''posix'',
       os_sep = ''/'',
       isdir = (\<lambda>_. False),
       import_module = (\<lambda>m. if m = ''.cdWriterDocstring'' then Imported else ImportError),
       new_Parser = [],
       parse = (\<lambda>p st. if p = ''a.xml'' then (True, st @ src) else (False, st)),
       parseDoxygenIndexFile =
         (\<lambda>p st. if p = ''index.xml'' then (True, st @ src) else (False, st)),
       traverse = (\<lambda>st w. st),
       writer_init = (\<lambda>w. None),
       generate = (\<lambda>w out ds. Inr (concat ds)) \<rparr>"

subsection \<open>Kinds of events\<close>

fun is_Traverse :: "'d event \<Rightarrow> bool" where
  "is_Traverse (Traverse w ds) = True"
| "is_Traverse _ = False"

fun is_writer_event :: "'d event \<Rightarrow> bool" where
  \<comment> \<open>What the module loop does beyond logging.\<close>
  "is_writer_event (NewWriter w) = True"
| "is_writer_event (Traverse w ds) = True"
| "is_writer_event (PickleDump p ds) = True"
| "is_writer_event (Generate w out ds) = True"
| "is_writer_event _ = False"

definition sample_argv :: "string list" where
  "sample_argv = [''-i'', ''a.xml'', ''-o'', ''out'', ''-p'', ''pxr'', ''-m'', ''Sdf,Usd'', ''-c'']"

definition cached_fs :: "string fs" where
  "cached_fs = [''a.xml.pickle'' \<mapsto> Pickled (Some [''Old''])]"


fun generated :: "'d event list \<Rightarrow> (writer \<times> path \<times> 'd list) list" where
  \<comment> \<open>The generate calls of a trace, in order: the writer, the output path, the sequence.\<close>
  "generated [] = []"
| "generated (Generate w out ds # evs) = (w, out, ds) # generated evs"
| "generated (ev # evs) = generated evs"

abbreviation generate_calls ::
  "string \<Rightarrow> string \<Rightarrow> 'd list \<Rightarrow> (string \<times> path) list \<Rightarrow> (writer \<times> path \<times> 'd list) list" where
  \<comment> \<open>One generate call per pair of a module and its output file, all with \<open>docs\<close>.\<close>
  "generate_calls cls pkg docs l \<equiv>
     map (\<lambda>(m, out). (\<lparr> w_class = cls, w_package = pkg, w_module = m \<rparr>, out, docs)) l"


section \<open>Properties\<close>

subsection \<open>Results\<close>

lemma outcome_of_emit [simp]: "outcome_of (emit evs r) = outcome_of r"
  by (simp add: outcome_of_def emit_def)

lemma trace_of_emit [simp]: "trace_of (emit evs r) = evs @ trace_of r"
  by (simp add: trace_of_def emit_def)

lemma files_of_emit [simp]: "files_of (emit evs r) = files_of r"
  by (simp add: files_of_def emit_def)

lemma result_projections [simp]:
  "outcome_of (oc, evs, fs) = oc" "trace_of (oc, evs, fs) = evs" "files_of (oc, evs, fs) = fs"
  by (simp_all add: outcome_of_def trace_of_def files_of_def)

subsection \<open>The events of each phase\<close>

lemma remove_existing_events:
  "ev \<in> set (fst (remove_existing l fs)) \<Longrightarrow> \<exists>p. ev = OsRemove p"
  by (induction l arbitrary: fs) (auto simp: split_beta split: if_splits)

lemma add_dll_directories_events:
  "ev \<in> set (add_dll_directories e d) \<Longrightarrow> \<exists>p. ev = AddDllDirectory p"
  by (auto simp: add_dll_directories_def split: option.splits if_splits)

lemma read_cache_events:
  "ev \<in> set (snd (read_cache c pp fs)) \<Longrightarrow>
     (ev = PickleLoad pp (pickle_load fs pp) \<and> c \<and> isfile fs pp)
     \<or> (\<exists>s. ev = Debug s) \<or> (\<exists>x. ev = DebugTraceback x)"
  by (auto simp: read_cache_def split: if_splits sum.splits)

lemma parse_input_events:
  "ev \<in> set (snd (snd (parse_input e i f d p))) \<Longrightarrow>
     d = None \<and>
     ((\<exists>q. i = Some q \<and> ev = ParseIndexFile q (fst (parseDoxygenIndexFile e q p)))
      \<or> (\<exists>q. i = None \<and> f = Some q \<and> ev = ParseFile q (fst (parse e q p))))"
  by (auto simp: parse_input_def split: if_splits option.splits prod.splits)

lemma module_loop_cached:
  "ev \<in> set (trace_of (module_loop e cls pkg c pp parser l (Some ds) fs)) \<Longrightarrow>
     (\<exists>w. ev = NewWriter w \<and> w_class w = cls \<and> w_package w = pkg)
     \<or> (\<exists>s. ev = Debug s)
     \<or> (\<exists>w out. ev = Generate w out ds \<and> w_class w = cls \<and> w_package w = pkg)"
  by (induction l arbitrary: fs) (auto simp: Let_def split: option.splits sum.splits)

lemma module_loop_events:
  assumes "ev \<in> set (trace_of (module_loop e cls pkg c pp parser l d fs))"
  shows "(\<exists>w. ev = NewWriter w \<and> w_class w = cls \<and> w_package w = pkg)
     \<or> (\<exists>s. ev = Debug s)
     \<or> (\<exists>w ds. ev = Traverse w ds \<and> d = None \<and> w_class w = cls \<and> w_package w = pkg)
     \<or> (\<exists>ds. ev = PickleDump pp ds \<and> d = None \<and> c)
     \<or> (\<exists>w out ds. ev = Generate w out ds \<and> w_class w = cls \<and> w_package w = pkg)"
proof (cases l)
  case Nil
  with assms show ?thesis by simp
next
  case (Cons a rest)
  with assms show ?thesis
    by (cases a; cases d)
       (auto simp: Let_def split: option.splits sum.splits dest!: module_loop_cached)
qed

subsection \<open>The shape of a run\<close>

lemma output_format_given: "\<exists>fmt. output_format (read_options e) = Some fmt"
  by (simp add: read_options_def GetArgValue_def split: option.splits)

lemma run_cases:
  obtains (rejected) oc where
      "run e fs = (oc, [SetDebugMode (debug_mode (read_options e))], fs)"
      "oc \<in> {Fatal_Usage,
             Fatal_Error ''Required option --package not specified'',
             Fatal_Error ''Required option --module not specified''}"
  | (accepted) out pkg mods fmt where
      "output_file (read_options e) = Some out"
      "packageName (read_options e) = Some pkg"
      "modules (read_options e) = Some mods"
      "output_format (read_options e) = Some fmt"
      "truthy (xml_file (read_options e)) \<or> truthy (xml_index_file (read_options e))"
      "run e fs = emit [SetDebugMode (debug_mode (read_options e))]
                    (convert e (read_options e) out pkg mods fmt fs)"
proof -
  obtain fmt where fmt: "output_format (read_options e) = Some fmt"
    using output_format_given by blast
  define opts where "opts = read_options e"
  show thesis
  proof (cases "\<not> (truthy (xml_file opts) \<or> truthy (xml_index_file opts))
                  \<or> \<not> truthy (output_file opts) \<or> show_help opts
                  \<or> \<not> truthy (packageName opts) \<or> \<not> truthy (modules opts)")
    case True
    then have "\<exists>oc. run e fs = (oc, [SetDebugMode (debug_mode (read_options e))], fs)
                \<and> oc \<in> {Fatal_Usage,
                         Fatal_Error ''Required option --package not specified'',
                         Fatal_Error ''Required option --module not specified''}"
      unfolding run_def Let_def opts_def [symmetric] by (auto simp: emit_def)
    then show thesis using rejected by blast
  next
    case False
    then obtain out pkg mods where o: "output_file opts = Some out"
        "packageName opts = Some pkg" "modules opts = Some mods"
      by (auto simp: truthy_def split: option.splits)
    from False o fmt have "run e fs = emit [SetDebugMode (debug_mode opts)]
                    (convert e opts out pkg mods fmt fs)"
      unfolding run_def Let_def opts_def [symmetric] by simp
    with False o fmt show thesis using accepted unfolding opts_def by blast
  qed
qed

lemma convert_shape:
  obtains pre where
    "\<forall>ev\<in>set pre. (\<exists>p. ev = OsRemove p) \<or> (\<exists>p. ev = SysPathAppend p)
                    \<or> (\<exists>p. ev = AddDllDirectory p)"
    "convert e opts out pkg mods fmt fs =
       emit (pre @ [ImportModule (plugin_module fmt) (import_module e (plugin_module fmt))])
         (case import_module e (plugin_module fmt) of
            ImportError \<Rightarrow>
              (Fatal_Error (''No writer plugin exists for format '' @ quoted fmt), [],
               snd (remove_existing (output_files_of out (module_list_of mods)) fs))
          | OtherException exc \<Rightarrow>
              (Uncaught exc, [],
               snd (remove_existing (output_files_of out (module_list_of mods)) fs))
          | Imported \<Rightarrow>
              emit [Print (''Converting Doxygen comments to '' @ fmt @ '' format...'')]
                (process e opts (plugin_module fmt) pkg (module_list_of mods)
                   (output_files_of out (module_list_of mods))
                   (snd (remove_existing (output_files_of out (module_list_of mods)) fs))))"
proof -
  let ?pre = "fst (remove_existing (output_files_of out (module_list_of mods)) fs)
                 @ (case python_path opts of None \<Rightarrow> [] | Some p \<Rightarrow> [SysPathAppend p])
                 @ add_dll_directories e (dll_path opts)"
  have "\<forall>ev\<in>set ?pre. (\<exists>p. ev = OsRemove p) \<or> (\<exists>p. ev = SysPathAppend p)
                    \<or> (\<exists>p. ev = AddDllDirectory p)"
    by (auto dest: remove_existing_events add_dll_directories_events split: option.splits)
  moreover have "convert e opts out pkg mods fmt fs =
       emit (?pre @ [ImportModule (plugin_module fmt) (import_module e (plugin_module fmt))])
         (case import_module e (plugin_module fmt) of
            ImportError \<Rightarrow>
              (Fatal_Error (''No writer plugin exists for format '' @ quoted fmt), [],
               snd (remove_existing (output_files_of out (module_list_of mods)) fs))
          | OtherException exc \<Rightarrow>
              (Uncaught exc, [],
               snd (remove_existing (output_files_of out (module_list_of mods)) fs))
          | Imported \<Rightarrow>
              emit [Print (''Converting Doxygen comments to '' @ fmt @ '' format...'')]
                (process e opts (plugin_module fmt) pkg (module_list_of mods)
                   (output_files_of out (module_list_of mods))
                   (snd (remove_existing (output_files_of out (module_list_of mods)) fs))))"
    unfolding convert_def Let_def by (simp add: split_beta)
  ultimately show thesis using that by blast
qed

lemma process_shape:
  assumes "pickle_path (xml_index_file opts) (xml_file opts) = Some pp"
  shows "process e opts cls pkg ml ofs fs =
     emit (NewParser # snd (read_cache (use_cached_parsing opts) pp fs)
           @ snd (snd (parse_input e (xml_index_file opts) (xml_file opts)
                         (fst (read_cache (use_cached_parsing opts) pp fs)) (new_Parser e))))
       (case fst (parse_input e (xml_index_file opts) (xml_file opts)
                    (fst (read_cache (use_cached_parsing opts) pp fs)) (new_Parser e)) of
          Some oc \<Rightarrow> (oc, [], fs)
        | None \<Rightarrow>
            module_loop e cls pkg (use_cached_parsing opts) pp
              (fst (snd (parse_input e (xml_index_file opts) (xml_file opts)
                           (fst (read_cache (use_cached_parsing opts) pp fs)) (new_Parser e))))
              (zip ml ofs) (fst (read_cache (use_cached_parsing opts) pp fs)) fs)"
  unfolding process_def using assms by (simp add: split_beta emit_def)

lemma pickle_path_given:
  "truthy f \<or> truthy i \<Longrightarrow> \<exists>pp. pickle_path i f = Some pp"
  by (auto simp: pickle_path_def truthy_def split: option.splits)

lemma run_shape:
  obtains (rejected) oc where
      "run e fs = (oc, [SetDebugMode (debug_mode (read_options e))], fs)"
      "oc \<in> {Fatal_Usage,
             Fatal_Error ''Required option --package not specified'',
             Fatal_Error ''Required option --module not specified''}"
  | (accepted) out pkg mods fmt pp pre fs1 where
      "output_file (read_options e) = Some out"
      "packageName (read_options e) = Some pkg"
      "modules (read_options e) = Some mods"
      "output_format (read_options e) = Some fmt"
      "pickle_path (xml_index_file (read_options e)) (xml_file (read_options e)) = Some pp"
      "fs1 = snd (remove_existing (output_files_of out (module_list_of mods)) fs)"
      "\<forall>ev\<in>set pre. (\<exists>p. ev = OsRemove p) \<or> (\<exists>p. ev = SysPathAppend p)
                      \<or> (\<exists>p. ev = AddDllDirectory p)"
      "run e fs =
         emit (SetDebugMode (debug_mode (read_options e)) # pre
               @ [ImportModule (plugin_module fmt) (import_module e (plugin_module fmt))])
           (case import_module e (plugin_module fmt) of
              ImportError \<Rightarrow>
                (Fatal_Error (''No writer plugin exists for format '' @ quoted fmt), [], fs1)
            | OtherException exc \<Rightarrow> (Uncaught exc, [], fs1)
            | Imported \<Rightarrow>
                emit [Print (''Converting Doxygen comments to '' @ fmt @ '' format...'')]
                  (process e (read_options e) (plugin_module fmt) pkg (module_list_of mods)
                     (output_files_of out (module_list_of mods)) fs1))"
proof (cases rule: run_cases [of e fs])
  case (rejected oc)
  then show ?thesis using that(1) by blast
next
  case (accepted out pkg mods fmt)
  obtain pp where pp:
    "pickle_path (xml_index_file (read_options e)) (xml_file (read_options e)) = Some pp"
    using accepted(5) pickle_path_given by blast
  obtain pre where pre:
    "\<forall>ev\<in>set pre. (\<exists>p. ev = OsRemove p) \<or> (\<exists>p. ev = SysPathAppend p)
                    \<or> (\<exists>p. ev = AddDllDirectory p)"
    "convert e (read_options e) out pkg mods fmt fs =
       emit (pre @ [ImportModule (plugin_module fmt) (import_module e (plugin_module fmt))])
         (case import_module e (plugin_module fmt) of
            ImportError \<Rightarrow>
              (Fatal_Error (''No writer plugin exists for format '' @ quoted fmt), [],
               snd (remove_existing (output_files_of out (module_list_of mods)) fs))
          | OtherException exc \<Rightarrow>
              (Uncaught exc, [],
               snd (remove_existing (output_files_of out (module_list_of mods)) fs))
          | Imported \<Rightarrow>
              emit [Print (''Converting Doxygen comments to '' @ fmt @ '' format...'')]
                (process e (read_options e) (plugin_module fmt) pkg (module_list_of mods)
                   (output_files_of out (module_list_of mods))
                   (snd (remove_existing (output_files_of out (module_list_of mods)) fs))))"
    by (rule convert_shape)
  have "run e fs =
         emit (SetDebugMode (debug_mode (read_options e)) # pre
               @ [ImportModule (plugin_module fmt) (import_module e (plugin_module fmt))])
           (case import_module e (plugin_module fmt) of
              ImportError \<Rightarrow>
                (Fatal_Error (''No writer plugin exists for format '' @ quoted fmt), [],
                 snd (remove_existing (output_files_of out (module_list_of mods)) fs))
            | OtherException exc \<Rightarrow>
                (Uncaught exc, [],
                 snd (remove_existing (output_files_of out (module_list_of mods)) fs))
            | Imported \<Rightarrow>
                emit [Print (''Converting Doxygen comments to '' @ fmt @ '' format...'')]
                  (process e (read_options e) (plugin_module fmt) pkg (module_list_of mods)
                     (output_files_of out (module_list_of mods))
                     (snd (remove_existing (output_files_of out (module_list_of mods)) fs))))"
    unfolding accepted(6) pre(2) by (simp add: emit_def)
  with accepted pp pre(1) show ?thesis using that(2) by blast
qed

lemma parse_input_failure:
  "ParseFile q False \<in> set (snd (snd (parse_input e i f d p))) \<Longrightarrow>
     fst (parse_input e i f d p) = Some (Fatal_Error (''Could not parse XML file: '' @ q))"
  "ParseIndexFile q False \<in> set (snd (snd (parse_input e i f d p))) \<Longrightarrow>
     fst (parse_input e i f d p) = Some (Fatal_Error (''Could not parse XML index file: '' @ q))"
  by (auto simp: parse_input_def split: if_splits option.splits prod.splits)

subsection \<open>The cache file is not an output file\<close>

lemma remove_existing_files:
  "snd (remove_existing l fs) p = (if p \<in> set l then None else fs p)"
  by (induction l arbitrary: fs) (auto simp: split_beta isfile_def)

lemma endswith_last: "endswith s (a @ [c]) \<Longrightarrow> last s = c"
proof -
  assume h: "endswith s (a @ [c])"
  then have "s = take (length s - length (a @ [c])) s @ (a @ [c])"
    unfolding endswith_def by (metis append_take_drop_id)
  then have "s = (take (length s - length (a @ [c])) s @ a) @ [c]" by simp
  then show ?thesis by (metis last_snoc)
qed

lemma os_path_join_DOC_last: "last (os_path_join a ''__DOC.py'') = CHR ''y''"
  by (simp add: os_path_join_def startswith_def)

lemma module_output_file_last: "last (module_output_file out ml m) = CHR ''y''"
proof (cases "length ml = 1 \<and> endswith out ''.py''")
  case True
  then have "endswith out (''.p'' @ [CHR ''y''])" by simp
  then have "last out = CHR ''y''" by (rule endswith_last)
  with True show ?thesis by (simp add: module_output_file_def)
next
  case False
  then have "module_output_file out ml m
               = os_path_join (os_path_join out m) ''__DOC.py''"
    unfolding module_output_file_def by (rule if_not_P)
  then show ?thesis by (simp only: os_path_join_DOC_last)
qed

lemma pickle_path_last: "pickle_path i f = Some pp \<Longrightarrow> last pp = CHR ''e''"
  by (auto simp: pickle_path_def split: option.splits)

lemma pickle_path_not_output:
  "pickle_path i f = Some pp \<Longrightarrow> pp \<notin> set (output_files_of out ml)"
proof
  assume pp: "pickle_path i f = Some pp" and "pp \<in> set (output_files_of out ml)"
  then obtain m where "pp = module_output_file out ml m"
    by (auto simp: output_files_of_def)
  then have "last pp = CHR ''y''" by (simp add: module_output_file_last)
  with pickle_path_last [OF pp] show False by simp
qed

subsection \<open>Cache lookups\<close>

lemma read_cache_hit:
  "c \<Longrightarrow> fs pp = Some (Pickled v) \<Longrightarrow>
     read_cache c pp fs
       = (v, [PickleLoad pp (Inr v), Debug (''Read pre-parsed file: '' @ quoted pp)])"
  by (simp add: read_cache_def isfile_def pickle_load_def)

lemma parse_input_skipped: "parse_input e i f (Some ds) p = (None, p, [])"
  by (simp add: parse_input_def)

subsection \<open>The module loop\<close>

lemma filter_none: "(\<And>x. x \<in> set xs \<Longrightarrow> \<not> P x) \<Longrightarrow> filter P xs = []"
  by (induction xs) auto

lemma module_loop_cached_no_traverse:
  "filter is_Traverse (trace_of (module_loop e cls pkg c pp parser l (Some ds) fs)) = []"
  by (rule filter_none) (auto dest!: module_loop_cached)

lemma module_loop_fresh:
  assumes "writer_init e \<lparr> w_class = cls, w_package = pkg, w_module = m \<rparr> = None"
  shows "\<exists>post.
     trace_of (module_loop e cls pkg c pp parser ((m, out) # rest) None fs)
       = [NewWriter \<lparr> w_class = cls, w_package = pkg, w_module = m \<rparr>,
          Debug (''Processing module '' @ m),
          Traverse \<lparr> w_class = cls, w_package = pkg, w_module = m \<rparr>
            (traverse e parser \<lparr> w_class = cls, w_package = pkg, w_module = m \<rparr>)] @ post
     \<and> (\<forall>ev\<in>set post. \<not> is_Traverse ev)
     \<and> (\<forall>w' out' ds'. Generate w' out' ds' \<in> set post
           \<longrightarrow> ds' = traverse e parser \<lparr> w_class = cls, w_package = pkg, w_module = m \<rparr>)"
  using assms
  by (cases "generate e \<lparr> w_class = cls, w_package = pkg, w_module = m \<rparr> out
               (traverse e parser \<lparr> w_class = cls, w_package = pkg, w_module = m \<rparr>)")
     (auto simp: Let_def dest!: module_loop_cached)

lemma module_loop_failed_init:
  assumes "writer_init e \<lparr> w_class = cls, w_package = pkg, w_module = m \<rparr> = Some msg"
  shows "trace_of (module_loop e cls pkg c pp parser ((m, out) # rest) d fs)
       = [NewWriter \<lparr> w_class = cls, w_package = pkg, w_module = m \<rparr>]"
  using assms by (simp add: Let_def)

lemma module_loop_traverse_once:
  "length (filter is_Traverse (trace_of (module_loop e cls pkg c pp parser l d fs))) \<le> 1"
proof (cases d)
  case (Some ds)
  then show ?thesis by (simp add: module_loop_cached_no_traverse)
next
  case None
  show ?thesis
  proof (cases l)
    case Nil
    then show ?thesis by simp
  next
    case (Cons a rest)
    obtain m out where a: "a = (m, out)" by (cases a)
    show ?thesis
    proof (cases "writer_init e \<lparr> w_class = cls, w_package = pkg, w_module = m \<rparr>")
      case (Some msg)
      show ?thesis unfolding None Cons a module_loop_failed_init [OF Some] by simp
    next
      case wi: None
      from module_loop_fresh [OF wi, of c pp parser out rest fs]
      obtain post where
        "trace_of (module_loop e cls pkg c pp parser ((m, out) # rest) None fs)
           = [NewWriter \<lparr> w_class = cls, w_package = pkg, w_module = m \<rparr>,
              Debug (''Processing module '' @ m),
              Traverse \<lparr> w_class = cls, w_package = pkg, w_module = m \<rparr>
                (traverse e parser \<lparr> w_class = cls, w_package = pkg, w_module = m \<rparr>)] @ post"
        "\<forall>ev\<in>set post. \<not> is_Traverse ev"
        by blast
      then show ?thesis unfolding None Cons a by (simp add: filter_none)
    qed
  qed
qed

lemma module_loop_first_writer:
  assumes "Traverse w ds \<in> set (trace_of (module_loop e cls pkg c pp parser l d fs))"
  shows "\<exists>post.
     trace_of (module_loop e cls pkg c pp parser l d fs)
       = [NewWriter w, Debug (''Processing module '' @ w_module w), Traverse w ds] @ post
     \<and> ds = traverse e parser w
     \<and> (\<forall>w' out' ds'. Generate w' out' ds' \<in> set post \<longrightarrow> ds' = ds)"
proof (cases d)
  case (Some ds0)
  with assms show ?thesis by (auto dest!: module_loop_cached)
next
  case None
  show ?thesis
  proof (cases l)
    case Nil
    with assms show ?thesis by simp
  next
    case (Cons a rest)
    obtain m out where a: "a = (m, out)" by (cases a)
    let ?w = "\<lparr> w_class = cls, w_package = pkg, w_module = m \<rparr>"
    show ?thesis
    proof (cases "writer_init e ?w")
      case (Some msg)
      with assms show ?thesis
        unfolding None Cons a module_loop_failed_init [OF Some] by simp
    next
      case wi: None
      from module_loop_fresh [OF wi, of c pp parser out rest fs]
      obtain post where post:
        "trace_of (module_loop e cls pkg c pp parser ((m, out) # rest) None fs)
           = [NewWriter ?w, Debug (''Processing module '' @ m),
              Traverse ?w (traverse e parser ?w)] @ post"
        "\<forall>ev\<in>set post. \<not> is_Traverse ev"
        "\<forall>w' out' ds'. Generate w' out' ds' \<in> set post \<longrightarrow> ds' = traverse e parser ?w"
        by blast
      from assms post(2) have "w = ?w \<and> ds = traverse e parser ?w"
        unfolding None Cons a post(1) by auto
      with post show ?thesis unfolding None Cons a by auto
    qed
  qed
qed

lemma module_loop_same_docs:
  assumes "Generate w1 o1 d1 \<in> set (trace_of (module_loop e cls pkg c pp parser l d fs))"
      and "Generate w2 o2 d2 \<in> set (trace_of (module_loop e cls pkg c pp parser l d fs))"
  shows "d1 = d2"
proof (cases d)
  case (Some ds0)
  with assms show ?thesis by (auto dest!: module_loop_cached)
next
  case None
  show ?thesis
  proof (cases l)
    case Nil
    with assms show ?thesis by simp
  next
    case (Cons a rest)
    obtain m out where a: "a = (m, out)" by (cases a)
    let ?w = "\<lparr> w_class = cls, w_package = pkg, w_module = m \<rparr>"
    show ?thesis
    proof (cases "writer_init e ?w")
      case (Some msg)
      with assms show ?thesis
        unfolding None Cons a module_loop_failed_init [OF Some] by simp
    next
      case wi: None
      from module_loop_fresh [OF wi, of c pp parser out rest fs]
      obtain post where post:
        "trace_of (module_loop e cls pkg c pp parser ((m, out) # rest) None fs)
           = [NewWriter ?w, Debug (''Processing module '' @ m),
              Traverse ?w (traverse e parser ?w)] @ post"
        "\<forall>w' out' ds'. Generate w' out' ds' \<in> set post \<longrightarrow> ds' = traverse e parser ?w"
        by blast
      from assms have "Generate w1 o1 d1 \<in> set post" "Generate w2 o2 d2 \<in> set post"
        unfolding None Cons a post(1) by auto
      with post(2) have "d1 = traverse e parser ?w" "d2 = traverse e parser ?w"
        by blast+
      then show ?thesis by simp
    qed
  qed
qed

lemma read_cache_no_writer_event:
  "ev \<in> set (snd (read_cache c pp fs)) \<Longrightarrow> \<not> is_writer_event ev"
  by (auto dest!: read_cache_events)

lemma parse_input_no_writer_event:
  "ev \<in> set (snd (snd (parse_input e i f d p))) \<Longrightarrow> \<not> is_writer_event ev"
  by (auto dest!: parse_input_events)

lemma run_loop_shape:
  obtains (stopped) "\<forall>ev\<in>set (trace_of (run e fs)). \<not> is_writer_event ev"
  | (looped) front out pkg mods fmt pp parser d fs1 where
      "output_file (read_options e) = Some out"
      "packageName (read_options e) = Some pkg"
      "modules (read_options e) = Some mods"
      "output_format (read_options e) = Some fmt"
      "pickle_path (xml_index_file (read_options e)) (xml_file (read_options e)) = Some pp"
      "\<forall>ev\<in>set front. \<not> is_writer_event ev"
      "trace_of (run e fs) =
         front @ trace_of (module_loop e (plugin_module fmt) pkg
                             (use_cached_parsing (read_options e)) pp parser
                             (zip (module_list_of mods)
                                (output_files_of out (module_list_of mods))) d fs1)"
proof (cases rule: run_shape [of e fs])
  case (rejected oc)
  then show ?thesis using stopped by simp
next
  case (accepted out pkg mods fmt pp pre fs1)
  let ?opts = "read_options e"
  let ?rc = "read_cache (use_cached_parsing ?opts) pp fs1"
  let ?pi = "parse_input e (xml_index_file ?opts) (xml_file ?opts) (fst ?rc) (new_Parser e)"
  have pre: "\<forall>ev\<in>set pre. \<not> is_writer_event ev"
    using accepted(7) by auto
  show ?thesis
  proof (cases "import_module e (plugin_module fmt)")
    case Imported
    note shape = accepted(8) [unfolded Imported import_result.case
        process_shape [OF accepted(5)]]
    show ?thesis
    proof (cases "fst ?pi")
      case None
      let ?front = "SetDebugMode (debug_mode ?opts) # pre
          @ [ImportModule (plugin_module fmt) Imported,
             Print (''Converting Doxygen comments to '' @ fmt @ '' format...''), NewParser]
          @ snd ?rc @ snd (snd ?pi)"
      have "\<forall>ev\<in>set ?front. \<not> is_writer_event ev"
        using pre
        by (auto dest: read_cache_no_writer_event parse_input_no_writer_event)
      moreover have "trace_of (run e fs) =
         ?front @ trace_of (module_loop e (plugin_module fmt) pkg
                             (use_cached_parsing ?opts) pp (fst (snd ?pi))
                             (zip (module_list_of mods)
                                (output_files_of out (module_list_of mods))) (fst ?rc) fs1)"
        unfolding shape using None by simp
      ultimately show ?thesis using looped accepted(1-5) by blast
    next
      case (Some oc)
      have "\<forall>ev\<in>set (trace_of (run e fs)). \<not> is_writer_event ev"
        unfolding shape using Some pre
        by (auto dest: read_cache_no_writer_event parse_input_no_writer_event)
      then show ?thesis by (rule stopped)
    qed
  next
    case ImportError
    have "\<forall>ev\<in>set (trace_of (run e fs)). \<not> is_writer_event ev"
      unfolding accepted(8) ImportError using pre by auto
    then show ?thesis by (rule stopped)
  next
    case (OtherException x)
    have "\<forall>ev\<in>set (trace_of (run e fs)). \<not> is_writer_event ev"
      unfolding accepted(8) OtherException using pre by auto
    then show ?thesis by (rule stopped)
  qed
qed

subsection \<open>Which plugin and which source a run uses\<close>



subsection \<open>Runs of the executable environment\<close>

lemma sample_options:
  "read_options (sample_env sample_argv src)
   = \<lparr> xml_file = Some ''a.xml'', xml_file_dir = None, xml_index_file = None,
       output_file = Some ''out'', output_format = Some ''Docstring'', python_path = None,
       dll_path = None, use_cached_parsing = True, debug_mode = False, show_help = False,
       packageName = Some ''pxr'', modules = Some ''Sdf,Usd'' \<rparr>"
  by (simp add: read_options_def sample_env_def sample_argv_def GetArgValue_def GetArg_def)

lemma char_of_49: "char_of (49::nat) = CHR ''1''"
  by code_simp

lemmas sample_eval = char_of_49
  Let_def truthy_def convert_def module_list_of_def output_files_of_def plugin_module_def
  module_output_file_def os_path_join_def endswith_def startswith_def isfile_def
  add_dll_directories_def process_def pickle_path_def read_cache_def parse_input_def
  pickle_load_def pickle_dump_def

lemma sample_run_fresh:
  "trace_of (run (sample_env sample_argv [''Foo'']) Map.empty)
   = [SetDebugMode False, ImportModule ''.cdWriterDocstring'' Imported,
      Print ''Converting Doxygen comments to Docstring format...'', NewParser,
      ParseFile ''a.xml'' True,
      NewWriter \<lparr>w_class = ''.cdWriterDocstring'', w_package = ''pxr'', w_module = ''Sdf''\<rparr>,
      Debug ''Processing module Sdf'',
      Traverse \<lparr>w_class = ''.cdWriterDocstring'', w_package = ''pxr'', w_module = ''Sdf''\<rparr>
        [''Foo''],
      Debug ''Processed 1 DocElements from doxygen XML'',
      PickleDump ''a.xml.pickle'' [''Foo''],
      Generate \<lparr>w_class = ''.cdWriterDocstring'', w_package = ''pxr'', w_module = ''Sdf''\<rparr>
        ''out/Sdf/__DOC.py'' [''Foo''],
      NewWriter \<lparr>w_class = ''.cdWriterDocstring'', w_package = ''pxr'', w_module = ''Usd''\<rparr>,
      Debug ''Processing module Usd'',
      Generate \<lparr>w_class = ''.cdWriterDocstring'', w_package = ''pxr'', w_module = ''Usd''\<rparr>
        ''out/Usd/__DOC.py'' [''Foo'']]"
  unfolding run_def sample_options
  by (simp add: sample_eval sample_env_def)

lemma sample_run_cached:
  "trace_of (run (sample_env sample_argv [''Foo'']) cached_fs)
   = [SetDebugMode False, ImportModule ''.cdWriterDocstring'' Imported,
      Print ''Converting Doxygen comments to Docstring format...'', NewParser,
      PickleLoad ''a.xml.pickle'' (Inr (Some [''Old''])),
      Debug (''Read pre-parsed file: '' @ quoted ''a.xml.pickle''),
      NewWriter \<lparr>w_class = ''.cdWriterDocstring'', w_package = ''pxr'', w_module = ''Sdf''\<rparr>,
      Debug ''Processing module Sdf'',
      Generate \<lparr>w_class = ''.cdWriterDocstring'', w_package = ''pxr'', w_module = ''Sdf''\<rparr>
        ''out/Sdf/__DOC.py'' [''Old''],
      NewWriter \<lparr>w_class = ''.cdWriterDocstring'', w_package = ''pxr'', w_module = ''Usd''\<rparr>,
      Debug ''Processing module Usd'',
      Generate \<lparr>w_class = ''.cdWriterDocstring'', w_package = ''pxr'', w_module = ''Usd''\<rparr>
        ''out/Usd/__DOC.py'' [''Old'']]"
  unfolding run_def sample_options
  by (simp add: sample_eval sample_env_def cached_fs_def)



lemma bad_xml_options:
  "read_options (sample_env [''-i'', ''b.xml'', ''-o'', ''out'', ''-p'', ''pxr'', ''-m'', ''Sdf'']
                   src)
   = \<lparr> xml_file = Some ''b.xml'', xml_file_dir = None, xml_index_file = None,
       output_file = Some ''out'', output_format = Some ''Docstring'', python_path = None,
       dll_path = None, use_cached_parsing = False, debug_mode = False, show_help = False,
       packageName = Some ''pxr'', modules = Some ''Sdf'' \<rparr>"
  by (simp add: read_options_def sample_env_def GetArgValue_def GetArg_def)

lemma sample_run_bad_xml:
  "trace_of (run (sample_env [''-i'', ''b.xml'', ''-o'', ''out'', ''-p'', ''pxr'', ''-m'', ''Sdf'']
                    [''Foo'']) Map.empty)
   = [SetDebugMode False, ImportModule ''.cdWriterDocstring'' Imported,
      Print ''Converting Doxygen comments to Docstring format...'', NewParser,
      ParseFile ''b.xml'' False]"
  unfolding run_def bad_xml_options
  by (simp add: sample_eval sample_env_def)

lemma sample_run_fresh_outcome:
  "outcome_of (run (sample_env sample_argv [''Foo'']) (Map.empty :: string fs)) = Completed"
  unfolding run_def sample_options
  by (simp add: sample_eval sample_env_def)



lemma sample_calls:
  "zip (module_list_of ''Sdf,Usd'') (output_files_of ''out'' (module_list_of ''Sdf,Usd''))
     = [(''Sdf'', ''out/Sdf/__DOC.py''), (''Usd'', ''out/Usd/__DOC.py'')]"
  by (simp add: sample_eval)

lemma pickle_load_Inr: "pickle_load fs pp = Inr v \<Longrightarrow> fs pp = Some (Pickled v)"
  by (auto simp: pickle_load_def split: option.splits content.splits)

subsection \<open>The generate calls of a run\<close>

lemma generated_append [simp]: "generated (xs @ ys) = generated xs @ generated ys"
  by (induction xs rule: generated.induct) simp_all

lemma generated_no_writer_event:
  "\<forall>ev\<in>set xs. \<not> is_writer_event ev \<Longrightarrow> generated xs = []"
  by (induction xs rule: generated.induct) simp_all

lemma module_loop_cached_generated:
  "generated (trace_of (module_loop e cls pkg c pp parser l (Some ds) fs))
     = generate_calls cls pkg ds
         (take (length (generated (trace_of (module_loop e cls pkg c pp parser l (Some ds) fs))))
            l)
   \<and> (outcome_of (module_loop e cls pkg c pp parser l (Some ds) fs) = Completed \<longrightarrow>
        generated (trace_of (module_loop e cls pkg c pp parser l (Some ds) fs))
          = generate_calls cls pkg ds l)"
proof (induction l arbitrary: fs)
  case Nil
  then show ?case by simp
next
  case (Cons a l)
  obtain m out where a: "a = (m, out)" by (cases a)
  let ?w = "\<lparr> w_class = cls, w_package = pkg, w_module = m \<rparr>"
  show ?case
  proof (cases "writer_init e ?w")
    case (Some msg)
    then show ?thesis unfolding a by (simp add: Let_def)
  next
    case None
    show ?thesis
    proof (cases "generate e ?w out ds")
      case (Inl exc)
      with None show ?thesis unfolding a by (simp add: Let_def)
    next
      case (Inr written)
      define g where "g = fs(out \<mapsto> Raw written)"
      have step: "module_loop e cls pkg c pp parser ((m, out) # l) (Some ds) fs
                    = emit [NewWriter ?w, Debug (''Processing module '' @ m), Generate ?w out ds]
                        (module_loop e cls pkg c pp parser l (Some ds) g)"
        using None Inr unfolding g_def by (simp add: Let_def)
      show ?thesis unfolding a step
        using Cons.IH [of g]
        by simp
    qed
  qed
qed


lemma module_loop_fresh_generated:
  "generated (trace_of (module_loop e cls pkg c pp parser ((m, out) # rest) None fs))
     = generate_calls cls pkg
         (traverse e parser \<lparr> w_class = cls, w_package = pkg, w_module = m \<rparr>)
         (take (length (generated
                  (trace_of (module_loop e cls pkg c pp parser ((m, out) # rest) None fs))))
            ((m, out) # rest))
   \<and> (outcome_of (module_loop e cls pkg c pp parser ((m, out) # rest) None fs) = Completed \<longrightarrow>
        generated (trace_of (module_loop e cls pkg c pp parser ((m, out) # rest) None fs))
          = generate_calls cls pkg
              (traverse e parser \<lparr> w_class = cls, w_package = pkg, w_module = m \<rparr>)
              ((m, out) # rest))"
proof -
  let ?w = "\<lparr> w_class = cls, w_package = pkg, w_module = m \<rparr>"
  let ?docs = "traverse e parser ?w"
  show ?thesis
  proof (cases "writer_init e ?w")
    case (Some msg)
    then show ?thesis by (simp add: Let_def)
  next
    case None
    show ?thesis
    proof (cases "generate e ?w out ?docs")
      case (Inl exc)
      with None show ?thesis by (simp add: Let_def)
    next
      case (Inr written)
      define g where "g = (if c then pickle_dump fs pp ?docs else fs)(out \<mapsto> Raw written)"
      define evs where "evs = [NewWriter ?w, Debug (''Processing module '' @ m),
                  Traverse ?w ?docs,
                  Debug (''Processed '' @ digits_of (length ?docs)
                         @ '' DocElements from doxygen XML'')]
               @ (if c then [PickleDump pp ?docs] else [])"
      have gen: "generated evs = []" unfolding evs_def by simp
      have step: "module_loop e cls pkg c pp parser ((m, out) # rest) None fs
                    = emit (evs @ [Generate ?w out ?docs])
                        (module_loop e cls pkg c pp parser rest (Some ?docs) g)"
        using None Inr unfolding g_def evs_def by (simp add: Let_def)
      show ?thesis unfolding step
        using module_loop_cached_generated [of e cls pkg c pp parser rest ?docs g] gen
        by simp
    qed
  qed
qed

lemma parse_input_not_completed: "fst (parse_input e i f d p) \<noteq> Some Completed"
  by (auto simp: parse_input_def split_beta split: option.splits)

lemma run_loop_full:
  obtains (stopped)
      "\<forall>ev\<in>set (trace_of (run e fs)). \<not> is_writer_event ev"
      "outcome_of (run e fs) \<noteq> Completed"
  | (looped) pre out pkg mods fmt pp fs1 rc pi where
      "output_file (read_options e) = Some out"
      "packageName (read_options e) = Some pkg"
      "modules (read_options e) = Some mods"
      "output_format (read_options e) = Some fmt"
      "pickle_path (xml_index_file (read_options e)) (xml_file (read_options e)) = Some pp"
      "fs1 = snd (remove_existing (output_files_of out (module_list_of mods)) fs)"
      "rc = read_cache (use_cached_parsing (read_options e)) pp fs1"
      "pi = parse_input e (xml_index_file (read_options e)) (xml_file (read_options e))
              (fst rc) (new_Parser e)"
      "fst pi = None"
      "\<forall>ev\<in>set pre. (\<exists>b. ev = SetDebugMode b) \<or> (\<exists>p. ev = OsRemove p)
                      \<or> (\<exists>p. ev = SysPathAppend p) \<or> (\<exists>p. ev = AddDllDirectory p)
                      \<or> (\<exists>m r. ev = ImportModule m r) \<or> (\<exists>s. ev = Print s)"
      "trace_of (run e fs) =
         pre @ NewParser # snd rc @ snd (snd pi)
         @ trace_of (module_loop e (plugin_module fmt) pkg
                       (use_cached_parsing (read_options e)) pp (fst (snd pi))
                       (zip (module_list_of mods) (output_files_of out (module_list_of mods)))
                       (fst rc) fs1)"
      "outcome_of (run e fs) =
         outcome_of (module_loop e (plugin_module fmt) pkg
                       (use_cached_parsing (read_options e)) pp (fst (snd pi))
                       (zip (module_list_of mods) (output_files_of out (module_list_of mods)))
                       (fst rc) fs1)"
      "files_of (run e fs) =
         files_of (module_loop e (plugin_module fmt) pkg
                       (use_cached_parsing (read_options e)) pp (fst (snd pi))
                       (zip (module_list_of mods) (output_files_of out (module_list_of mods)))
                       (fst rc) fs1)"
      "\<forall>ev\<in>set (pre @ NewParser # snd rc @ snd (snd pi)). \<not> is_writer_event ev"
proof (cases rule: run_shape [of e fs])
  case (rejected oc)
  then show ?thesis using stopped by auto
next
  case (accepted out pkg mods fmt pp pre fs1)
  let ?opts = "read_options e"
  let ?rc = "read_cache (use_cached_parsing ?opts) pp fs1"
  let ?pi = "parse_input e (xml_index_file ?opts) (xml_file ?opts) (fst ?rc) (new_Parser e)"
  have pre: "\<forall>ev\<in>set pre. \<not> is_writer_event ev"
    using accepted(7) by auto
  show ?thesis
  proof (cases "import_module e (plugin_module fmt)")
    case Imported
    note shape = accepted(8) [unfolded Imported import_result.case
        process_shape [OF accepted(5)]]
    show ?thesis
    proof (cases "fst ?pi")
      case None
      let ?pre = "SetDebugMode (debug_mode ?opts) # pre
          @ [ImportModule (plugin_module fmt) Imported,
             Print (''Converting Doxygen comments to '' @ fmt @ '' format...'')]"
      let ?loop = "module_loop e (plugin_module fmt) pkg
                             (use_cached_parsing ?opts) pp (fst (snd ?pi))
                             (zip (module_list_of mods)
                                (output_files_of out (module_list_of mods))) (fst ?rc) fs1"
      have p: "\<forall>ev\<in>set ?pre. (\<exists>b. ev = SetDebugMode b) \<or> (\<exists>p. ev = OsRemove p)
                      \<or> (\<exists>p. ev = SysPathAppend p) \<or> (\<exists>p. ev = AddDllDirectory p)
                      \<or> (\<exists>m r. ev = ImportModule m r) \<or> (\<exists>s. ev = Print s)"
        using accepted(7) by auto
      have t: "trace_of (run e fs) = ?pre @ NewParser # snd ?rc @ snd (snd ?pi) @ trace_of ?loop"
        unfolding shape using None by simp
      have o: "outcome_of (run e fs) = outcome_of ?loop"
        unfolding shape using None by simp
      have f: "files_of (run e fs) = files_of ?loop"
        unfolding shape using None by simp
      have n: "\<forall>ev\<in>set (?pre @ NewParser # snd ?rc @ snd (snd ?pi)). \<not> is_writer_event ev"
        using pre by (auto dest: read_cache_no_writer_event parse_input_no_writer_event)
      show ?thesis
        using looped [OF accepted(1-6) refl refl None p t o f n] .
    next
      case (Some oc)
      have "\<forall>ev\<in>set (trace_of (run e fs)). \<not> is_writer_event ev"
        unfolding shape using Some pre
        by (auto dest: read_cache_no_writer_event parse_input_no_writer_event)
      moreover have "outcome_of (run e fs) \<noteq> Completed"
        unfolding shape using Some parse_input_not_completed [of e "xml_index_file ?opts"
            "xml_file ?opts" "fst ?rc" "new_Parser e"] by auto
      ultimately show ?thesis by (rule stopped)
    qed
  next
    case ImportError
    have "\<forall>ev\<in>set (trace_of (run e fs)). \<not> is_writer_event ev"
      unfolding accepted(8) ImportError using pre by auto
    moreover have "outcome_of (run e fs) \<noteq> Completed"
      unfolding accepted(8) ImportError by simp
    ultimately show ?thesis by (rule stopped)
  next
    case (OtherException x)
    have "\<forall>ev\<in>set (trace_of (run e fs)). \<not> is_writer_event ev"
      unfolding accepted(8) OtherException using pre by auto
    moreover have "outcome_of (run e fs) \<noteq> Completed"
      unfolding accepted(8) OtherException by simp
    ultimately show ?thesis by (rule stopped)
  qed
qed


lemma module_loop_traverse_event:
  assumes "Traverse w ds
             \<in> set (trace_of (module_loop e cls pkg c pp parser ((m, out) # rest) None fs))"
  shows "w = \<lparr> w_class = cls, w_package = pkg, w_module = m \<rparr>
         \<and> ds = traverse e parser \<lparr> w_class = cls, w_package = pkg, w_module = m \<rparr>"
proof (cases "writer_init e \<lparr> w_class = cls, w_package = pkg, w_module = m \<rparr>")
  case (Some msg)
  with assms show ?thesis unfolding module_loop_failed_init [OF Some] by simp
next
  case None
  from module_loop_fresh [OF None, of c pp parser out rest fs]
  obtain post where post:
    "trace_of (module_loop e cls pkg c pp parser ((m, out) # rest) None fs)
       = [NewWriter \<lparr> w_class = cls, w_package = pkg, w_module = m \<rparr>,
          Debug (''Processing module '' @ m),
          Traverse \<lparr> w_class = cls, w_package = pkg, w_module = m \<rparr>
            (traverse e parser \<lparr> w_class = cls, w_package = pkg, w_module = m \<rparr>)] @ post"
    "\<forall>ev\<in>set post. \<not> is_Traverse ev"
    by blast
  from assms post(2) show ?thesis unfolding post(1) by auto
qed


lemma run_generated:
  assumes "output_file (read_options e) = Some out"
      and "packageName (read_options e) = Some pkg"
      and "modules (read_options e) = Some mods"
      and "output_format (read_options e) = Some fmt"
  shows "\<exists>docs.
           generated (trace_of (run e fs))
             = generate_calls (plugin_module fmt) pkg docs
                 (take (length (generated (trace_of (run e fs))))
                    (zip (module_list_of mods) (output_files_of out (module_list_of mods))))
         \<and> (outcome_of (run e fs) = Completed \<longrightarrow>
              generated (trace_of (run e fs))
                = generate_calls (plugin_module fmt) pkg docs
                    (zip (module_list_of mods) (output_files_of out (module_list_of mods))))
         \<and> (\<forall>w ds. Traverse w ds \<in> set (trace_of (run e fs)) \<longrightarrow>
              ds = docs
              \<and> ds = traverse e
                       (fst (snd (parse_input e (xml_index_file (read_options e))
                                    (xml_file (read_options e)) None (new_Parser e)))) w)"
proof (cases rule: run_loop_full [of e fs])
  case stopped
  have "\<forall>w ds. Traverse w ds \<notin> set (trace_of (run e fs))" using stopped(1) by auto
  with stopped show ?thesis by (simp add: generated_no_writer_event)
next
  case (looped pre out' pkg' mods' fmt' pp fs1 rc pi)
  have eq: "out' = out" "pkg' = pkg" "mods' = mods" "fmt' = fmt"
    using looped(1-4) assms by simp_all
  let ?l = "zip (module_list_of mods) (output_files_of out (module_list_of mods))"
  let ?loop = "module_loop e (plugin_module fmt) pkg
                       (use_cached_parsing (read_options e)) pp (fst (snd pi)) ?l (fst rc) fs1"
  have g: "generated (pre @ NewParser # snd rc @ snd (snd pi)) = []"
    using looped(14) by (rule generated_no_writer_event)
  have t: "generated (trace_of (run e fs)) = generated (trace_of ?loop)"
    using g unfolding looped(11) eq by simp
  have o: "outcome_of (run e fs) = outcome_of ?loop"
    unfolding looped(12) eq ..
  define front where "front = pre @ NewParser # snd rc @ snd (snd pi)"
  have fr: "\<forall>ev\<in>set front. \<not> is_writer_event ev"
    unfolding front_def by (rule looped(14))
  have tf: "trace_of (run e fs) = front @ trace_of ?loop"
    unfolding looped(11) eq front_def by simp
  have tr: "\<And>w ds. Traverse w ds \<in> set (trace_of (run e fs))
              \<Longrightarrow> Traverse w ds \<in> set (trace_of ?loop)"
    using fr unfolding tf by auto
  show ?thesis
  proof (cases "fst rc")
    case (Some ds0)
    have "\<forall>w ds. Traverse w ds \<notin> set (trace_of (run e fs))"
      using tr unfolding Some by (auto dest!: module_loop_cached)
    then show ?thesis
      unfolding t o Some
      using module_loop_cached_generated [of e "plugin_module fmt" pkg
               "use_cached_parsing (read_options e)" pp "fst (snd pi)" ?l ds0 fs1]
      by blast
  next
    case None
    have pi: "pi = parse_input e (xml_index_file (read_options e))
                     (xml_file (read_options e)) None (new_Parser e)"
      using looped(8) unfolding None .
    show ?thesis
    proof (cases ?l)
      case Nil
      have "\<forall>w ds. Traverse w ds \<notin> set (trace_of (run e fs))"
        using tr unfolding Nil by auto
      then show ?thesis unfolding t o Nil by simp
    next
      case (Cons a rest)
      obtain m o1 where a: "a = (m, o1)" by (cases a)
      let ?w = "\<lparr> w_class = plugin_module fmt, w_package = pkg, w_module = m \<rparr>"
      let ?docs = "traverse e (fst (snd pi)) ?w"
      have "\<forall>w ds. Traverse w ds \<in> set (trace_of (run e fs)) \<longrightarrow>
              ds = ?docs \<and> ds = traverse e (fst (snd pi)) w"
      proof (intro allI impI)
        fix w ds
        assume "Traverse w ds \<in> set (trace_of (run e fs))"
        then have "Traverse w ds
                     \<in> set (trace_of (module_loop e (plugin_module fmt) pkg
                                (use_cached_parsing (read_options e)) pp (fst (snd pi))
                                ((m, o1) # rest) None fs1))"
          using tr [unfolded None Cons a] by blast
        from module_loop_traverse_event [OF this]
        show "ds = ?docs \<and> ds = traverse e (fst (snd pi)) w" by simp
      qed
      then show ?thesis
        unfolding t o None Cons a pi [symmetric]
        using module_loop_fresh_generated [of e "plugin_module fmt" pkg
                 "use_cached_parsing (read_options e)" pp "fst (snd pi)" m o1 rest fs1]
        by blast
    qed
  qed
qed

subsection \<open>Runs that differ in the cache file only\<close>





lemma run_cases_all:
  "(\<exists>oc. \<forall>fs. run e fs = (oc, [SetDebugMode (debug_mode (read_options e))], fs))
   \<or> (\<exists>out pkg mods fmt. \<forall>fs.
          run e fs = emit [SetDebugMode (debug_mode (read_options e))]
                       (convert e (read_options e) out pkg mods fmt fs))"
proof -
  obtain fmt where fmt: "output_format (read_options e) = Some fmt"
    using output_format_given by blast
  define opts where "opts = read_options e"
  show ?thesis
  proof (cases "\<not> (truthy (xml_file opts) \<or> truthy (xml_index_file opts))
                  \<or> \<not> truthy (output_file opts) \<or> show_help opts
                  \<or> \<not> truthy (packageName opts) \<or> \<not> truthy (modules opts)")
    case True
    then have "\<exists>oc. \<forall>fs. run e fs = (oc, [SetDebugMode (debug_mode (read_options e))], fs)"
      unfolding run_def Let_def opts_def [symmetric] by (auto simp: emit_def)
    then show ?thesis by blast
  next
    case False
    then obtain out pkg mods where o: "output_file opts = Some out"
        "packageName opts = Some pkg" "modules opts = Some mods"
      by (auto simp: truthy_def split: option.splits)
    from False o fmt have "\<forall>fs. run e fs = emit [SetDebugMode (debug_mode opts)]
                    (convert e opts out pkg mods fmt fs)"
      unfolding run_def Let_def opts_def [symmetric] by simp
    then show ?thesis unfolding opts_def by blast
  qed
qed







subsection \<open>Cache hits and traversals of a run\<close>

lemma run_cache_hit_no_parsing:
  assumes "use_cached_parsing (read_options e)"
      and "pickle_path (xml_index_file (read_options e)) (xml_file (read_options e)) = Some pp"
      and "fs pp = Some (Pickled (Some ds))"
  shows "(\<forall>q ok. ParseFile q ok \<notin> set (trace_of (run e fs)))
         \<and> (\<forall>q ok. ParseIndexFile q ok \<notin> set (trace_of (run e fs)))
         \<and> (\<forall>w ds'. Traverse w ds' \<notin> set (trace_of (run e fs)))
         \<and> (\<forall>w out ds'. Generate w out ds' \<in> set (trace_of (run e fs)) \<longrightarrow> ds' = ds)"
proof (cases rule: run_shape [of e fs])
  case (rejected oc)
  then show ?thesis by simp
next
  case (accepted out pkg mods fmt pp' pre fs1)
  have "fs1 pp = fs pp"
    unfolding accepted(6) using pickle_path_not_output [OF assms(2)]
    by (simp add: remove_existing_files)
  with assms(3) have hit: "fs1 pp = Some (Pickled (Some ds))" by simp
  have rc: "read_cache (use_cached_parsing (read_options e)) pp fs1
              = (Some ds, [PickleLoad pp (Inr (Some ds)),
                           Debug (''Read pre-parsed file: '' @ quoted pp)])"
    using assms(1) hit by (rule read_cache_hit)
  show ?thesis
  proof (cases "import_module e (plugin_module fmt)")
    case Imported
    note shape = accepted(8) [unfolded Imported import_result.case
        process_shape [OF assms(2)] rc fst_conv snd_conv parse_input_skipped]
    show ?thesis
      unfolding shape using accepted(7)
      by (auto dest!: module_loop_cached)
  next
    case ImportError
    then show ?thesis unfolding accepted(8) using accepted(7) by auto
  next
    case (OtherException x)
    then show ?thesis unfolding accepted(8) using accepted(7) by auto
  qed
qed

lemma run_traverse_once:
  "length (filter is_Traverse (trace_of (run e fs))) \<le> 1
   \<and> (\<forall>w ds. Traverse w ds \<in> set (trace_of (run e fs)) \<longrightarrow>
         (\<exists>front post.
            trace_of (run e fs)
              = front @ [NewWriter w, Debug (''Processing module '' @ w_module w),
                         Traverse w ds] @ post
            \<and> (\<forall>w'. NewWriter w' \<notin> set front)))
   \<and> (\<forall>w1 o1 d1 w2 o2 d2.
         Generate w1 o1 d1 \<in> set (trace_of (run e fs)) \<longrightarrow>
         Generate w2 o2 d2 \<in> set (trace_of (run e fs)) \<longrightarrow> d1 = d2)"
proof (cases rule: run_loop_shape [of e fs])
  case stopped
  have "filter is_Traverse (trace_of (run e fs)) = []"
    using stopped by (intro filter_none) (metis is_Traverse.elims(2) is_writer_event.simps(2))
  moreover have "\<forall>w ds. Traverse w ds \<notin> set (trace_of (run e fs))"
    using stopped by auto
  moreover have "\<forall>w out ds. Generate w out ds \<notin> set (trace_of (run e fs))"
    using stopped by auto
  ultimately show ?thesis by simp
next
  case (looped front out pkg mods fmt pp parser d fs1)
  let ?loop = "module_loop e (plugin_module fmt) pkg (use_cached_parsing (read_options e)) pp
                 parser (zip (module_list_of mods) (output_files_of out (module_list_of mods)))
                 d fs1"
  have front_none: "filter is_Traverse front = []"
    using looped(6) by (intro filter_none) (metis is_Traverse.elims(2) is_writer_event.simps(2))
  have c1: "length (filter is_Traverse (trace_of (run e fs))) \<le> 1"
    unfolding looped(7) using module_loop_traverse_once [of e] by (simp add: front_none)
  have c2: "\<forall>w ds. Traverse w ds \<in> set (trace_of (run e fs)) \<longrightarrow>
         (\<exists>front post.
            trace_of (run e fs)
              = front @ [NewWriter w, Debug (''Processing module '' @ w_module w),
                         Traverse w ds] @ post
            \<and> (\<forall>w'. NewWriter w' \<notin> set front))"
  proof (intro allI impI)
    fix w ds
    assume "Traverse w ds \<in> set (trace_of (run e fs))"
    then have "Traverse w ds \<in> set (trace_of ?loop)"
      unfolding looped(7) using looped(6) by auto
    from module_loop_first_writer [OF this]
    obtain post where "trace_of ?loop
       = [NewWriter w, Debug (''Processing module '' @ w_module w), Traverse w ds] @ post"
      by blast
    then have "trace_of (run e fs)
              = front @ [NewWriter w, Debug (''Processing module '' @ w_module w),
                         Traverse w ds] @ post"
      unfolding looped(7) by simp
    moreover have "\<forall>w'. NewWriter w' \<notin> set front" using looped(6) by auto
    ultimately show "\<exists>front post.
            trace_of (run e fs)
              = front @ [NewWriter w, Debug (''Processing module '' @ w_module w),
                         Traverse w ds] @ post
            \<and> (\<forall>w'. NewWriter w' \<notin> set front)" by blast
  qed
  have c3: "\<forall>w1 o1 d1 w2 o2 d2.
         Generate w1 o1 d1 \<in> set (trace_of (run e fs)) \<longrightarrow>
         Generate w2 o2 d2 \<in> set (trace_of (run e fs)) \<longrightarrow> d1 = d2"
  proof (intro allI impI)
    fix w1 o1 d1 w2 o2 d2
    assume "Generate w1 o1 d1 \<in> set (trace_of (run e fs))"
       and "Generate w2 o2 d2 \<in> set (trace_of (run e fs))"
    then have "Generate w1 o1 d1 \<in> set (trace_of ?loop)"
        "Generate w2 o2 d2 \<in> set (trace_of ?loop)"
      unfolding looped(7) using looped(6) by auto
    then show "d1 = d2" by (rule module_loop_same_docs)
  qed
  from c1 c2 c3 show ?thesis by blast
qed

subsection \<open>Writing and reloading the cache\<close>

lemma convert_unfold:
  "convert e opts out pkg mods fmt fs =
     emit (fst (remove_existing (output_files_of out (module_list_of mods)) fs)
           @ ((case python_path opts of None \<Rightarrow> [] | Some p \<Rightarrow> [SysPathAppend p])
              @ add_dll_directories e (dll_path opts))
           @ [ImportModule (plugin_module fmt) (import_module e (plugin_module fmt))])
       (case import_module e (plugin_module fmt) of
          ImportError \<Rightarrow>
            (Fatal_Error (''No writer plugin exists for format '' @ quoted fmt), [],
             snd (remove_existing (output_files_of out (module_list_of mods)) fs))
        | OtherException exc \<Rightarrow>
            (Uncaught exc, [],
             snd (remove_existing (output_files_of out (module_list_of mods)) fs))
        | Imported \<Rightarrow>
            emit [Print (''Converting Doxygen comments to '' @ fmt @ '' format...'')]
              (process e opts (plugin_module fmt) pkg (module_list_of mods)
                 (output_files_of out (module_list_of mods))
                 (snd (remove_existing (output_files_of out (module_list_of mods)) fs))))"
  unfolding convert_def Let_def by (simp add: split_beta)

lemma convert_no_parser:
  assumes "import_module e (plugin_module fmt) \<noteq> Imported"
  shows "NewParser \<notin> set (trace_of (convert e opts out pkg mods fmt fs))"
proof -
  have "NewParser \<notin> set (fst (remove_existing (output_files_of out (module_list_of mods)) fs)
           @ ((case python_path opts of None \<Rightarrow> [] | Some p \<Rightarrow> [SysPathAppend p])
              @ add_dll_directories e (dll_path opts)))"
    by (auto dest: remove_existing_events add_dll_directories_events split: option.splits)
  then show ?thesis
    unfolding convert_unfold using assms
    by (cases "import_module e (plugin_module fmt)") simp_all
qed

lemma run_loads_cache:
  assumes "NewParser \<in> set (trace_of (run e fs))"
      and "use_cached_parsing (read_options e)"
      and "pickle_path (xml_index_file (read_options e)) (xml_file (read_options e)) = Some pp"
      and "fs' pp = Some (Pickled v)"
  shows "PickleLoad pp (Inr v) \<in> set (trace_of (run e fs'))"
proof -
  consider (rejected) oc where
      "\<forall>fs. run e fs = (oc, [SetDebugMode (debug_mode (read_options e))], fs)"
    | (accepted) out pkg mods fmt where
      "\<forall>fs. run e fs = emit [SetDebugMode (debug_mode (read_options e))]
                         (convert e (read_options e) out pkg mods fmt fs)"
    using run_cases_all [of e] by blast
  then show ?thesis
  proof cases
    case rejected
    with assms(1) show ?thesis by simp
  next
    case accepted
    let ?ofs = "output_files_of out (module_list_of mods)"
    let ?f1 = "snd (remove_existing ?ofs fs')"
    have r: "run e fs = emit [SetDebugMode (debug_mode (read_options e))]
                         (convert e (read_options e) out pkg mods fmt fs)"
      and r': "run e fs' = emit [SetDebugMode (debug_mode (read_options e))]
                         (convert e (read_options e) out pkg mods fmt fs')"
      using accepted by simp_all
    have imp: "import_module e (plugin_module fmt) = Imported"
    proof (rule ccontr)
      assume "import_module e (plugin_module fmt) \<noteq> Imported"
      from convert_no_parser [OF this, of "read_options e" out pkg mods fs] assms(1)
      show False unfolding r by simp
    qed
    have "?f1 pp = fs' pp"
      using pickle_path_not_output [OF assms(3), of out "module_list_of mods"]
      by (simp add: remove_existing_files)
    with assms(4) have hit: "?f1 pp = Some (Pickled v)" by simp
    have rc: "read_cache (use_cached_parsing (read_options e)) pp ?f1
                = (v, [PickleLoad pp (Inr v), Debug (''Read pre-parsed file: '' @ quoted pp)])"
      using assms(2) hit by (rule read_cache_hit)
    show ?thesis
      unfolding r' convert_unfold imp import_result.case process_shape [OF assms(3)] rc
      by simp
  qed
qed

lemma module_loop_cached_keeps:
  "pp \<notin> snd ` set l \<Longrightarrow>
     files_of (module_loop e cls pkg c pp parser l (Some ds) fs) pp = fs pp"
proof (induction l arbitrary: fs)
  case Nil
  then show ?case by simp
next
  case (Cons a l)
  obtain m out where a: "a = (m, out)" by (cases a)
  let ?w = "\<lparr> w_class = cls, w_package = pkg, w_module = m \<rparr>"
  from Cons.prems have ne: "out \<noteq> pp" and nl: "pp \<notin> snd ` set l" unfolding a by auto
  show ?case
  proof (cases "writer_init e ?w")
    case (Some msg)
    then show ?thesis unfolding a by (simp add: Let_def)
  next
    case None
    show ?thesis
    proof (cases "generate e ?w out ds")
      case (Inl exc)
      with None show ?thesis unfolding a by (simp add: Let_def)
    next
      case (Inr written)
      define g where "g = fs(out \<mapsto> Raw written)"
      have step: "module_loop e cls pkg c pp parser ((m, out) # l) (Some ds) fs
                    = emit [NewWriter ?w, Debug (''Processing module '' @ m), Generate ?w out ds]
                        (module_loop e cls pkg c pp parser l (Some ds) g)"
        using None Inr unfolding g_def by (simp add: Let_def)
      have "g pp = fs pp" unfolding g_def using ne by simp
      then show ?thesis unfolding a step using Cons.IH [OF nl, of g] by simp
    qed
  qed
qed

lemma module_loop_fresh_dump:
  assumes "Traverse w ds
             \<in> set (trace_of (module_loop e cls pkg True pp parser l None fs))"
      and "pp \<notin> snd ` set l"
  shows "PickleDump pp ds \<in> set (trace_of (module_loop e cls pkg True pp parser l None fs))
         \<and> files_of (module_loop e cls pkg True pp parser l None fs) pp
             = Some (Pickled (Some ds))"
proof (cases l)
  case Nil
  with assms(1) show ?thesis by simp
next
  case (Cons a rest)
  obtain m out where a: "a = (m, out)" by (cases a)
  let ?w = "\<lparr> w_class = cls, w_package = pkg, w_module = m \<rparr>"
  let ?docs = "traverse e parser ?w"
  from assms(2) have ne: "out \<noteq> pp" and nl: "pp \<notin> snd ` set rest"
    unfolding Cons a by auto
  from module_loop_traverse_event [OF assms(1) [unfolded Cons a]]
  have ds: "ds = ?docs" by simp
  show ?thesis
  proof (cases "writer_init e ?w")
    case (Some msg)
    with assms(1) show ?thesis unfolding Cons a module_loop_failed_init [OF Some] by simp
  next
    case None
    show ?thesis
    proof (cases "generate e ?w out ?docs")
      case (Inl exc)
      with None show ?thesis unfolding Cons a ds by (simp add: Let_def pickle_dump_def)
    next
      case (Inr written)
      define g where "g = (pickle_dump fs pp ?docs)(out \<mapsto> Raw written)"
      define evs where "evs = [NewWriter ?w, Debug (''Processing module '' @ m),
                  Traverse ?w ?docs,
                  Debug (''Processed '' @ digits_of (length ?docs)
                         @ '' DocElements from doxygen XML''),
                  PickleDump pp ?docs, Generate ?w out ?docs]"
      have step: "module_loop e cls pkg True pp parser ((m, out) # rest) None fs
                    = emit evs (module_loop e cls pkg True pp parser rest (Some ?docs) g)"
        using None Inr unfolding g_def evs_def by (simp add: Let_def)
      have "g pp = Some (Pickled (Some ?docs))"
        unfolding g_def using ne by (simp add: pickle_dump_def)
      moreover have "PickleDump pp ?docs \<in> set evs" unfolding evs_def by simp
      ultimately show ?thesis
        unfolding Cons a ds step
        using module_loop_cached_keeps [OF nl, of e cls pkg True parser ?docs g]
        by simp
    qed
  qed
qed

subsection \<open>Cache hits and the source\<close>

lemma read_options_source:
  "read_options (e\<lparr> new_Parser := n, parse := p1, parseDoxygenIndexFile := p2,
                     traverse := t \<rparr>)
     = read_options e"
  by (simp add: read_options_def GetArgValue_def GetArg_def)

lemma add_dll_directories_source:
  "add_dll_directories (e\<lparr> new_Parser := n, parse := p1, parseDoxygenIndexFile := p2,
                            traverse := t \<rparr>) d
     = add_dll_directories e d"
  by (cases d) (simp_all add: add_dll_directories_def)

lemma module_loop_cached_source:
  "module_loop (e\<lparr> new_Parser := n, parse := p1, parseDoxygenIndexFile := p2,
                    traverse := t \<rparr>) cls pkg c pp parser' l (Some ds) fs
     = module_loop e cls pkg c pp parser l (Some ds) fs"
proof (induction l arbitrary: fs)
  case Nil
  then show ?case by simp
next
  case (Cons a l)
  obtain m out where a: "a = (m, out)" by (cases a)
  let ?e' = "e\<lparr> new_Parser := n, parse := p1, parseDoxygenIndexFile := p2, traverse := t \<rparr>"
  let ?w = "\<lparr> w_class = cls, w_package = pkg, w_module = m \<rparr>"
  show ?case
  proof (cases "writer_init e ?w")
    case (Some msg)
    then show ?thesis unfolding a by (simp add: Let_def)
  next
    case None
    show ?thesis
    proof (cases "generate e ?w out ds")
      case (Inl exc)
      with None show ?thesis unfolding a by (simp add: Let_def)
    next
      case (Inr written)
      define g where "g = fs(out \<mapsto> Raw written)"
      have step: "module_loop e cls pkg c pp parser ((m, out) # l) (Some ds) fs
                    = emit [NewWriter ?w, Debug (''Processing module '' @ m), Generate ?w out ds]
                        (module_loop e cls pkg c pp parser l (Some ds) g)"
        using None Inr unfolding g_def by (simp add: Let_def)
      have step': "module_loop ?e' cls pkg c pp parser' ((m, out) # l) (Some ds) fs
                    = emit [NewWriter ?w, Debug (''Processing module '' @ m), Generate ?w out ds]
                        (module_loop ?e' cls pkg c pp parser' l (Some ds) g)"
        using None Inr unfolding g_def by (simp add: Let_def)
      show ?thesis unfolding a step step' Cons.IH [of g] ..
    qed
  qed
qed

lemma process_cached_source:
  assumes "use_cached_parsing opts"
      and "pickle_path (xml_index_file opts) (xml_file opts) = Some pp"
      and "fs pp = Some (Pickled (Some ds))"
  shows "process (e\<lparr> new_Parser := n, parse := p1, parseDoxygenIndexFile := p2,
                       traverse := t \<rparr>) opts cls pkg ml ofs fs
           = process e opts cls pkg ml ofs fs"
proof -
  have rc: "read_cache (use_cached_parsing opts) pp fs
              = (Some ds, [PickleLoad pp (Inr (Some ds)),
                           Debug (''Read pre-parsed file: '' @ quoted pp)])"
    using assms(1,3) by (rule read_cache_hit)
  show ?thesis
    unfolding process_shape [OF assms(2)] rc fst_conv snd_conv parse_input_skipped
      option.case
    by (simp only: module_loop_cached_source [where parser = "new_Parser e"])
qed

lemma convert_cached_source:
  assumes "use_cached_parsing opts"
      and "pickle_path (xml_index_file opts) (xml_file opts) = Some pp"
      and "fs pp = Some (Pickled (Some ds))"
  shows "convert (e\<lparr> new_Parser := n, parse := p1, parseDoxygenIndexFile := p2,
                       traverse := t \<rparr>) opts out pkg mods fmt fs
           = convert e opts out pkg mods fmt fs"
proof -
  let ?ofs = "output_files_of out (module_list_of mods)"
  have "snd (remove_existing ?ofs fs) pp = fs pp"
    using pickle_path_not_output [OF assms(2), of out "module_list_of mods"]
    by (simp add: remove_existing_files)
  with assms(3) have hit: "snd (remove_existing ?ofs fs) pp = Some (Pickled (Some ds))"
    by simp
  show ?thesis
    unfolding convert_unfold
      process_cached_source [where fs = "snd (remove_existing ?ofs fs)" and pp = pp,
        OF assms(1,2) hit]
      add_dll_directories_source
    by simp
qed

lemma sample_run_fresh_files:
  "files_of (run (sample_env sample_argv [''Foo'']) Map.empty)
     = [''a.xml.pickle'' \<mapsto> Pickled (Some [''Foo'']),
        ''out/Sdf/__DOC.py'' \<mapsto> Raw ''Foo'',
        ''out/Usd/__DOC.py'' \<mapsto> Raw ''Foo'']"
  unfolding run_def sample_options
  by (simp add: sample_eval sample_env_def)

lemma sample_run_changed:
  "generated (trace_of (run (sample_env sample_argv [''Bar'']) Map.empty))
     = [(\<lparr>w_class = ''.cdWriterDocstring'', w_package = ''pxr'', w_module = ''Sdf''\<rparr>, ''out/Sdf/__DOC.py'', [''Bar'']),
        (\<lparr>w_class = ''.cdWriterDocstring'', w_package = ''pxr'', w_module = ''Usd''\<rparr>, ''out/Usd/__DOC.py'', [''Bar''])]"
  unfolding run_def sample_options
  by (simp add: sample_eval sample_env_def)

lemma sample_run_stale:
  "trace_of (run (sample_env sample_argv [''Bar''])
       [''a.xml.pickle'' \<mapsto> Pickled (Some [''Foo'']),
        ''out/Sdf/__DOC.py'' \<mapsto> Raw ''Foo'',
        ''out/Usd/__DOC.py'' \<mapsto> Raw ''Foo''])
   = [SetDebugMode False, OsRemove ''out/Sdf/__DOC.py'', OsRemove ''out/Usd/__DOC.py'',
      ImportModule ''.cdWriterDocstring'' Imported,
      Print ''Converting Doxygen comments to Docstring format...'', NewParser,
      PickleLoad ''a.xml.pickle'' (Inr (Some [''Foo''])),
      Debug (''Read pre-parsed file: '' @ quoted ''a.xml.pickle''),
      NewWriter \<lparr>w_class = ''.cdWriterDocstring'', w_package = ''pxr'', w_module = ''Sdf''\<rparr>,
      Debug ''Processing module Sdf'',
      Generate \<lparr>w_class = ''.cdWriterDocstring'', w_package = ''pxr'', w_module = ''Sdf''\<rparr> ''out/Sdf/__DOC.py'' [''Foo''],
      NewWriter \<lparr>w_class = ''.cdWriterDocstring'', w_package = ''pxr'', w_module = ''Usd''\<rparr>,
      Debug ''Processing module Usd'',
      Generate \<lparr>w_class = ''.cdWriterDocstring'', w_package = ''pxr'', w_module = ''Usd''\<rparr> ''out/Usd/__DOC.py'' [''Foo'']]"
  unfolding run_def sample_options
  by (simp add: sample_eval sample_env_def)

subsection \<open>Argument validation\<close>

text \<open>
  C1.  When the command line gives neither \<open>--input\<close> nor \<open>--inputIndex\<close>, or no
  \<open>--package\<close>, or no \<open>--module\<close> (an empty value counts as none, as Python's \<open>not\<close>
  has it), the run ends in Usage or in Error with the message of the missing option, with
  a non-zero exit status; the only thing done before is setting the debug mode, so nothing
  is parsed, no writer is created and no file is touched.
\<close>

theorem missing_arguments_fatal:
  assumes "\<not> (truthy (cmd_value e [''--input'', ''-i''])
               \<or> truthy (cmd_value e [''--inputIndex'']))
           \<or> \<not> truthy (cmd_value e [''--package'', ''-p''])
           \<or> \<not> truthy (cmd_value e [''--module'', ''-m''])"
  shows "outcome_of (run e fs) \<in>
           {Fatal_Usage,
            Fatal_Error ''Required option --package not specified'',
            Fatal_Error ''Required option --module not specified''}
         \<and> exits_nonzero (outcome_of (run e fs))
         \<and> trace_of (run e fs) = [SetDebugMode (cmd_flag e [''--debug'', ''-d''])]
         \<and> files_of (run e fs) = fs"
  using assms
  by (auto simp: run_def read_options_def GetArgValue_def GetArg_def Let_def truthy_def
        exits_nonzero_def split: option.splits)

theorem missing_arguments_fatal_witness:
  "\<not> truthy (cmd_value (sample_env [''-i'', ''a.xml'', ''-o'', ''out'', ''-m'', ''Sdf''] [''Foo''])
               [''--package'', ''-p''])
   \<and> exits_nonzero
       (outcome_of (run (sample_env [''-i'', ''a.xml'', ''-o'', ''out'', ''-m'', ''Sdf''] [''Foo''])
                      Map.empty))
   \<and> trace_of (run (sample_env [''-i'', ''a.xml'', ''-o'', ''out'', ''-m'', ''Sdf''] [''Foo''])
                  Map.empty)
     = [SetDebugMode False]"
proof -
  let ?e = "sample_env [''-i'', ''a.xml'', ''-o'', ''out'', ''-m'', ''Sdf''] [''Foo'']"
  have h: "\<not> truthy (cmd_value ?e [''--package'', ''-p''])"
    by (simp add: sample_env_def truthy_def)
  have d: "cmd_flag ?e [''--debug'', ''-d''] = False"
    by (simp add: sample_env_def)
  from missing_arguments_fatal [of ?e Map.empty, OF disjI2, OF disjI1, OF h] h d
  show ?thesis by simp
qed

subsection \<open>Parse failures\<close>

text \<open>
  C3.  The parse calls return a boolean (they do not raise).  When \<open>parse\<close> or
  \<open>parseDoxygenIndexFile\<close> was called on a path and returned false, the run ends in Error
  with the message naming that path and a non-zero exit status, and no writer is created,
  nothing is traversed and nothing is generated.
\<close>

theorem parse_failure_aborts:
  assumes "ParseFile p False \<in> set (trace_of (run e fs))
           \<or> ParseIndexFile p False \<in> set (trace_of (run e fs))"
  shows "outcome_of (run e fs) \<in>
           {Fatal_Error (''Could not parse XML file: '' @ p),
            Fatal_Error (''Could not parse XML index file: '' @ p)}
         \<and> exits_nonzero (outcome_of (run e fs))
         \<and> (\<forall>w. NewWriter w \<notin> set (trace_of (run e fs)))
         \<and> (\<forall>w ds. Traverse w ds \<notin> set (trace_of (run e fs)))
         \<and> (\<forall>w out ds. Generate w out ds \<notin> set (trace_of (run e fs)))"
proof (cases rule: run_shape [of e fs])
  case (rejected oc)
  with assms show ?thesis by simp
next
  case (accepted out pkg mods fmt pp pre fs1)
  let ?opts = "read_options e"
  let ?doc = "fst (read_cache (use_cached_parsing ?opts) pp fs1)"
  let ?pi = "parse_input e (xml_index_file ?opts) (xml_file ?opts) ?doc (new_Parser e)"
  from assms accepted(7,8) have imp: "import_module e (plugin_module fmt) = Imported"
    by (cases "import_module e (plugin_module fmt)") auto
  note shape = accepted(8) [unfolded imp import_result.case process_shape [OF accepted(5)]]
  from assms accepted(7) have "ParseFile p False \<in> set (snd (snd ?pi))
      \<or> ParseIndexFile p False \<in> set (snd (snd ?pi))"
    unfolding shape
    by (auto dest!: read_cache_events module_loop_events split: option.splits)
  then have failed: "fst ?pi = Some (Fatal_Error (''Could not parse XML file: '' @ p))
      \<or> fst ?pi = Some (Fatal_Error (''Could not parse XML index file: '' @ p))"
    by (auto dest: parse_input_failure)
  have oc: "outcome_of (run e fs) \<in>
           {Fatal_Error (''Could not parse XML file: '' @ p),
            Fatal_Error (''Could not parse XML index file: '' @ p)}"
    unfolding shape using failed by auto
  have tr: "trace_of (run e fs) =
      SetDebugMode (debug_mode ?opts) # pre
      @ [ImportModule (plugin_module fmt) Imported,
         Print (''Converting Doxygen comments to '' @ fmt @ '' format...''), NewParser]
      @ snd (read_cache (use_cached_parsing ?opts) pp fs1) @ snd (snd ?pi)"
    unfolding shape using failed by auto
  have "\<forall>w. NewWriter w \<notin> set (trace_of (run e fs))"
    unfolding tr using accepted(7) by (auto dest!: read_cache_events parse_input_events)
  moreover have "\<forall>w ds. Traverse w ds \<notin> set (trace_of (run e fs))"
    unfolding tr using accepted(7) by (auto dest!: read_cache_events parse_input_events)
  moreover have "\<forall>w out ds. Generate w out ds \<notin> set (trace_of (run e fs))"
    unfolding tr using accepted(7) by (auto dest!: read_cache_events parse_input_events)
  ultimately show ?thesis using oc by (auto simp: exits_nonzero_def)
qed

theorem parse_failure_aborts_witness:
  "ParseFile ''b.xml'' False
     \<in> set (trace_of (run (sample_env [''-i'', ''b.xml'', ''-o'', ''out'', ''-p'', ''pxr'',
                                       ''-m'', ''Sdf''] [''Foo'']) Map.empty))
   \<and> exits_nonzero
       (outcome_of (run (sample_env [''-i'', ''b.xml'', ''-o'', ''out'', ''-p'', ''pxr'',
                                     ''-m'', ''Sdf''] [''Foo'']) Map.empty))
   \<and> (\<forall>w. NewWriter w
          \<notin> set (trace_of (run (sample_env [''-i'', ''b.xml'', ''-o'', ''out'', ''-p'', ''pxr'',
                                            ''-m'', ''Sdf''] [''Foo'']) Map.empty)))"
proof -
  let ?e = "sample_env [''-i'', ''b.xml'', ''-o'', ''out'', ''-p'', ''pxr'', ''-m'', ''Sdf'']
              [''Foo'']"
  have h: "ParseFile ''b.xml'' False \<in> set (trace_of (run ?e (Map.empty :: string fs)))"
    by (simp add: sample_run_bad_xml)
  from parse_failure_aborts [OF disjI1 [OF h]] h show ?thesis by blast
qed

subsection \<open>The writer plugin\<close>



subsection \<open>The parse cache\<close>




subsection \<open>One traversal for all modules\<close>

text \<open>
  C10.  In every run \<open>traverse\<close> is called at most once; when it is called, it is with the
  first writer created in the run, right after that writer's creation, and on the parser as
  the parse of the input left it.  The generate calls of the run are those of the modules
  in order, each with its output file and all with one and the same DocElement sequence,
  which is the one \<open>traverse\<close> returned when it was called: of a leading part of the
  module list in every run, and of all of it when the run completes.
\<close>

theorem traverse_once:
  "length (filter is_Traverse (trace_of (run e fs))) \<le> 1
   \<and> (\<forall>w ds. Traverse w ds \<in> set (trace_of (run e fs)) \<longrightarrow>
         (\<exists>front post.
            trace_of (run e fs)
              = front @ [NewWriter w, Debug (''Processing module '' @ w_module w),
                         Traverse w ds] @ post
            \<and> (\<forall>w'. NewWriter w' \<notin> set front)))
   \<and> (\<forall>w1 o1 d1 w2 o2 d2.
         Generate w1 o1 d1 \<in> set (trace_of (run e fs)) \<longrightarrow>
         Generate w2 o2 d2 \<in> set (trace_of (run e fs)) \<longrightarrow> d1 = d2)
   \<and> (\<forall>out pkg mods fmt.
         output_file (read_options e) = Some out
         \<and> packageName (read_options e) = Some pkg
         \<and> modules (read_options e) = Some mods
         \<and> output_format (read_options e) = Some fmt \<longrightarrow>
         (\<exists>docs.
            generated (trace_of (run e fs))
              = map (\<lambda>(m, p). (\<lparr> w_class = plugin_module fmt, w_package = pkg,
                                  w_module = m \<rparr>, p, docs))
                  (take (length (generated (trace_of (run e fs))))
                     (zip (module_list_of mods) (output_files_of out (module_list_of mods))))
            \<and> (outcome_of (run e fs) = Completed \<longrightarrow>
                 generated (trace_of (run e fs))
                   = map (\<lambda>(m, p). (\<lparr> w_class = plugin_module fmt, w_package = pkg,
                                       w_module = m \<rparr>, p, docs))
                       (zip (module_list_of mods)
                          (output_files_of out (module_list_of mods))))
            \<and> (\<forall>w ds. Traverse w ds \<in> set (trace_of (run e fs)) \<longrightarrow>
                 ds = docs
                 \<and> ds = traverse e
                          (fst (snd (parse_input e (xml_index_file (read_options e))
                                       (xml_file (read_options e)) None (new_Parser e))))
                          w)))"
proof -
  note a = run_traverse_once [of e fs]
  have b: "\<forall>out pkg mods fmt.
         output_file (read_options e) = Some out
         \<and> packageName (read_options e) = Some pkg
         \<and> modules (read_options e) = Some mods
         \<and> output_format (read_options e) = Some fmt \<longrightarrow>
         (\<exists>docs.
            generated (trace_of (run e fs))
              = map (\<lambda>(m, p). (\<lparr> w_class = plugin_module fmt, w_package = pkg,
                                  w_module = m \<rparr>, p, docs))
                  (take (length (generated (trace_of (run e fs))))
                     (zip (module_list_of mods) (output_files_of out (module_list_of mods))))
            \<and> (outcome_of (run e fs) = Completed \<longrightarrow>
                 generated (trace_of (run e fs))
                   = map (\<lambda>(m, p). (\<lparr> w_class = plugin_module fmt, w_package = pkg,
                                       w_module = m \<rparr>, p, docs))
                       (zip (module_list_of mods)
                          (output_files_of out (module_list_of mods))))
            \<and> (\<forall>w ds. Traverse w ds \<in> set (trace_of (run e fs)) \<longrightarrow>
                 ds = docs
                 \<and> ds = traverse e
                          (fst (snd (parse_input e (xml_index_file (read_options e))
                                       (xml_file (read_options e)) None (new_Parser e))))
                          w))"
    using run_generated [of e _ _ _ _ fs] by blast
  from a b show ?thesis by (intro conjI) blast+
qed

theorem traverse_once_witness:
  "length (filter is_Traverse (trace_of (run (sample_env sample_argv [''Foo'']) Map.empty))) \<le> 1
   \<and> Traverse \<lparr>w_class = ''.cdWriterDocstring'', w_package = ''pxr'', w_module = ''Sdf''\<rparr>
       [''Foo'']
       \<in> set (trace_of (run (sample_env sample_argv [''Foo'']) Map.empty))
   \<and> (\<exists>front post.
         trace_of (run (sample_env sample_argv [''Foo'']) Map.empty)
           = front
             @ [NewWriter \<lparr>w_class = ''.cdWriterDocstring'', w_package = ''pxr'', w_module = ''Sdf''\<rparr>,
                Debug (''Processing module '' @ ''Sdf''),
                Traverse \<lparr>w_class = ''.cdWriterDocstring'', w_package = ''pxr'', w_module = ''Sdf''\<rparr> [''Foo'']]
             @ post
         \<and> (\<forall>w'. NewWriter w' \<notin> set front))
   \<and> generated (trace_of (run (sample_env sample_argv [''Foo'']) Map.empty))
       = [(\<lparr>w_class = ''.cdWriterDocstring'', w_package = ''pxr'', w_module = ''Sdf''\<rparr>,
           ''out/Sdf/__DOC.py'', [''Foo'']),
          (\<lparr>w_class = ''.cdWriterDocstring'', w_package = ''pxr'', w_module = ''Usd''\<rparr>,
           ''out/Usd/__DOC.py'', [''Foo''])]"
proof -
  let ?e = "sample_env sample_argv [''Foo'']"
  let ?w = "\<lparr>w_class = ''.cdWriterDocstring'', w_package = ''pxr'', w_module = ''Sdf''\<rparr>"
  let ?t = "trace_of (run ?e (Map.empty :: string fs))"
  have h: "Traverse ?w [''Foo''] \<in> set ?t"
    by (simp add: sample_run_fresh)
  have o: "output_file (read_options ?e) = Some ''out''
           \<and> packageName (read_options ?e) = Some ''pxr''
           \<and> modules (read_options ?e) = Some ''Sdf,Usd''
           \<and> output_format (read_options ?e) = Some ''Docstring''"
    by (simp add: sample_options)
  note t = traverse_once [of ?e "Map.empty :: string fs"]
  from t have
    c1: "length (filter is_Traverse ?t) \<le> 1"
    and c2: "\<forall>w ds. Traverse w ds \<in> set ?t \<longrightarrow>
         (\<exists>front post.
            ?t = front @ [NewWriter w, Debug (''Processing module '' @ w_module w),
                         Traverse w ds] @ post
            \<and> (\<forall>w'. NewWriter w' \<notin> set front))"
    by blast+
  from c2 h have c2': "\<exists>front post.
            ?t = front @ [NewWriter ?w, Debug (''Processing module '' @ w_module ?w),
                         Traverse ?w [''Foo'']] @ post
            \<and> (\<forall>w'. NewWriter w' \<notin> set front)"
    by blast
  from t [THEN conjunct2, THEN conjunct2, THEN conjunct2, rule_format, OF o]
  obtain docs where docs:
    "outcome_of (run ?e (Map.empty :: string fs)) = Completed \<longrightarrow>
       generated ?t
         = map (\<lambda>(m, p). (\<lparr> w_class = plugin_module ''Docstring'', w_package = ''pxr'',
                             w_module = m \<rparr>, p, docs))
             (zip (module_list_of ''Sdf,Usd'')
                (output_files_of ''out'' (module_list_of ''Sdf,Usd'')))"
    "\<forall>w ds. Traverse w ds \<in> set ?t \<longrightarrow> ds = docs"
    by blast
  from docs(2) h have "docs = [''Foo'']" by blast
  with docs(1) sample_run_fresh_outcome
  have "generated ?t
         = map (\<lambda>(m, p). (\<lparr> w_class = plugin_module ''Docstring'', w_package = ''pxr'',
                             w_module = m \<rparr>, p, [''Foo'']))
             (zip (module_list_of ''Sdf,Usd'')
                (output_files_of ''out'' (module_list_of ''Sdf,Usd'')))"
    by simp
  then have g: "generated ?t
       = [(\<lparr>w_class = ''.cdWriterDocstring'', w_package = ''pxr'', w_module = ''Sdf''\<rparr>, ''out/Sdf/__DOC.py'', [''Foo'']),
          (\<lparr>w_class = ''.cdWriterDocstring'', w_package = ''pxr'', w_module = ''Usd''\<rparr>, ''out/Usd/__DOC.py'', [''Foo''])]"
    unfolding sample_calls by (simp add: plugin_module_def)
  from c1 h c2' g show ?thesis by simp
qed

subsection \<open>The default format\<close>



subsection \<open>Index file before XML file\<close>



subsection \<open>A cache file that cannot be read\<close>



subsection \<open>The cache round trip\<close>

text \<open>
  C7.  Take a run with caching enabled that parses its input and traverses it, \<open>traverse\<close>
  returning the sequence \<open>ds\<close>.  Then \<open>ds\<close> is what a parse and a traverse of the input
  give, it is dumped to the cache path, and the file the run leaves there loads to exactly
  \<open>ds\<close>.  A later run on the files left by the first loads \<open>ds\<close> from the cache path, calls
  neither \<open>parse\<close> nor \<open>parseDoxygenIndexFile\<close> nor \<open>traverse\<close>, and passes \<open>ds\<close> to every
  generate call.
\<close>

theorem cache_round_trip:
  assumes "use_cached_parsing (read_options e)"
      and "Traverse w ds \<in> set (trace_of (run e fs))"
  shows "\<exists>pp. pickle_path (xml_index_file (read_options e)) (xml_file (read_options e))
                = Some pp
           \<and> ds = traverse e
                    (fst (snd (parse_input e (xml_index_file (read_options e))
                                 (xml_file (read_options e)) None (new_Parser e)))) w
           \<and> PickleDump pp ds \<in> set (trace_of (run e fs))
           \<and> isfile (files_of (run e fs)) pp
           \<and> pickle_load (files_of (run e fs)) pp = Inr (Some ds)
           \<and> PickleLoad pp (Inr (Some ds)) \<in> set (trace_of (run e (files_of (run e fs))))
           \<and> (\<forall>q ok. ParseFile q ok \<notin> set (trace_of (run e (files_of (run e fs)))))
           \<and> (\<forall>q ok. ParseIndexFile q ok \<notin> set (trace_of (run e (files_of (run e fs)))))
           \<and> (\<forall>w' ds'. Traverse w' ds' \<notin> set (trace_of (run e (files_of (run e fs)))))
           \<and> (\<forall>w' out ds'. Generate w' out ds'
                                \<in> set (trace_of (run e (files_of (run e fs))))
                              \<longrightarrow> ds' = ds)"
proof (cases rule: run_loop_full [of e fs])
  case stopped
  with assms(2) show ?thesis by auto
next
  case (looped pre out pkg mods fmt pp fs1 rc pi)
  let ?l = "zip (module_list_of mods) (output_files_of out (module_list_of mods))"
  let ?loop = "module_loop e (plugin_module fmt) pkg
                       (use_cached_parsing (read_options e)) pp (fst (snd pi)) ?l (fst rc) fs1"
  define front where "front = pre @ NewParser # snd rc @ snd (snd pi)"
  have fr: "\<forall>ev\<in>set front. \<not> is_writer_event ev"
    unfolding front_def by (rule looped(14))
  have tf: "trace_of (run e fs) = front @ trace_of ?loop"
    unfolding looped(11) front_def by simp
  have np: "NewParser \<in> set (trace_of (run e fs))"
    unfolding tf front_def by simp
  have tl: "Traverse w ds \<in> set (trace_of ?loop)"
    using assms(2) fr unfolding tf by auto
  have d: "fst rc = None"
  proof (cases "fst rc")
    case (Some ds0)
    with tl show ?thesis by (auto dest!: module_loop_cached)
  qed simp
  have c: "use_cached_parsing (read_options e) = True" using assms(1) by simp
  have pi: "pi = parse_input e (xml_index_file (read_options e))
                   (xml_file (read_options e)) None (new_Parser e)"
    using looped(8) unfolding d .
  from module_loop_first_writer [OF tl]
  have ds: "ds = traverse e (fst (snd pi)) w" by blast
  have "pp \<notin> set (output_files_of out (module_list_of mods))"
    using looped(5) by (rule pickle_path_not_output)
  then have no: "pp \<notin> snd ` set ?l" by (auto dest: set_zip_rightD)
  from module_loop_fresh_dump [OF tl [unfolded d c] no]
  have dump: "PickleDump pp ds \<in> set (trace_of ?loop)"
    and kept: "files_of ?loop pp = Some (Pickled (Some ds))"
    unfolding d c by blast+
  have hit: "files_of (run e fs) pp = Some (Pickled (Some ds))"
    unfolding looped(13) using kept .
  have 1: "PickleDump pp ds \<in> set (trace_of (run e fs))"
    unfolding tf using dump by simp
  have 2: "isfile (files_of (run e fs)) pp"
    using hit by (simp add: isfile_def)
  have 3: "pickle_load (files_of (run e fs)) pp = Inr (Some ds)"
    using hit by (simp add: pickle_load_def)
  have 4: "PickleLoad pp (Inr (Some ds)) \<in> set (trace_of (run e (files_of (run e fs))))"
    using np assms(1) looped(5) hit by (rule run_loads_cache)
  note 5 = run_cache_hit_no_parsing [where fs = "files_of (run e fs)" and pp = pp,
             OF assms(1) looped(5) hit]
  from looped(5) ds [unfolded pi] 1 2 3 4 5 show ?thesis by blast
qed

theorem cache_round_trip_witness:
  "use_cached_parsing (read_options (sample_env sample_argv [''Foo'']))
   \<and> Traverse \<lparr>w_class = ''.cdWriterDocstring'', w_package = ''pxr'', w_module = ''Sdf''\<rparr> [''Foo'']
       \<in> set (trace_of (run (sample_env sample_argv [''Foo'']) Map.empty))
   \<and> pickle_load (files_of (run (sample_env sample_argv [''Foo'']) Map.empty)) ''a.xml.pickle''
       = Inr (Some [''Foo''])
   \<and> PickleLoad ''a.xml.pickle'' (Inr (Some [''Foo'']))
       \<in> set (trace_of (run (sample_env sample_argv [''Foo'']) (files_of (run (sample_env sample_argv [''Foo'']) Map.empty))))
   \<and> (\<forall>q ok. ParseFile q ok
          \<notin> set (trace_of (run (sample_env sample_argv [''Foo'']) (files_of (run (sample_env sample_argv [''Foo'']) Map.empty)))))"
proof -
  let ?e = "sample_env sample_argv [''Foo'']"
  let ?w = "\<lparr>w_class = ''.cdWriterDocstring'', w_package = ''pxr'', w_module = ''Sdf''\<rparr>"
  let ?fs = "Map.empty :: string fs"
  have h1: "use_cached_parsing (read_options ?e)" by (simp add: sample_options)
  have h2: "Traverse ?w [''Foo''] \<in> set (trace_of (run ?e ?fs))"
    by (simp add: sample_run_fresh)
  have pp: "pickle_path (xml_index_file (read_options ?e)) (xml_file (read_options ?e))
              = Some ''a.xml.pickle''"
    by (simp add: sample_options pickle_path_def)
  from cache_round_trip [OF h1 h2] pp
  have "pickle_load (files_of (run ?e ?fs)) ''a.xml.pickle'' = Inr (Some [''Foo''])
     \<and> PickleLoad ''a.xml.pickle'' (Inr (Some [''Foo'']))
         \<in> set (trace_of (run ?e (files_of (run ?e ?fs))))
     \<and> (\<forall>q ok. ParseFile q ok \<notin> set (trace_of (run ?e (files_of (run ?e ?fs)))))"
    by auto
  with h1 h2 show ?thesis by blast
qed

subsection \<open>The key of the cache\<close>

text \<open>
  C6.  The cache is keyed by the path of the source alone: the cache file is the index
  path if one is given, else the XML path, with \<open>.pickle\<close> appended (lines 104 to 107), and
  line 112 only asks whether that file exists.  With caching enabled and a cache file that
  loads to a DocElement sequence, the run is the same whatever the Parser would make of
  the source: no content or modification signature of the source takes part in the hit.
\<close>

theorem cache_keyed_by_path_only:
  assumes "use_cached_parsing (read_options e)"
      and "pickle_path (xml_index_file (read_options e)) (xml_file (read_options e)) = Some pp"
      and "isfile fs pp"
      and "pickle_load fs pp = Inr (Some ds)"
  shows "run (e\<lparr> new_Parser := n, parse := p1, parseDoxygenIndexFile := p2,
                   traverse := t \<rparr>) fs
           = run e fs
         \<and> pp = (case xml_index_file (read_options e) of
                   Some i \<Rightarrow> i
                 | None \<Rightarrow> (case xml_file (read_options e) of Some f \<Rightarrow> f | None \<Rightarrow> []))
                @ ''.pickle''"
proof -
  have hit: "fs pp = Some (Pickled (Some ds))"
    using assms(4) by (rule pickle_load_Inr)
  have conv: "\<And>out pkg mods fmt.
      convert (e\<lparr> new_Parser := n, parse := p1, parseDoxygenIndexFile := p2,
                   traverse := t \<rparr>) (read_options e) out pkg mods fmt fs
        = convert e (read_options e) out pkg mods fmt fs"
    using assms(1,2) hit by (rule convert_cached_source)
  have "run (e\<lparr> new_Parser := n, parse := p1, parseDoxygenIndexFile := p2,
                   traverse := t \<rparr>) fs = run e fs"
    unfolding run_def read_options_source Let_def conv ..
  moreover have "pp = (case xml_index_file (read_options e) of
                   Some i \<Rightarrow> i
                 | None \<Rightarrow> (case xml_file (read_options e) of Some f \<Rightarrow> f | None \<Rightarrow> []))
                @ ''.pickle''"
    using assms(2) by (auto simp: pickle_path_def split: option.splits)
  ultimately show ?thesis by blast
qed

theorem cache_keyed_by_path_only_witness:
  "use_cached_parsing (read_options (sample_env sample_argv [''Foo'']))
   \<and> pickle_path (xml_index_file (read_options (sample_env sample_argv [''Foo'']))) (xml_file (read_options (sample_env sample_argv [''Foo''])))
       = Some ''a.xml.pickle''
   \<and> isfile cached_fs ''a.xml.pickle''
   \<and> pickle_load cached_fs ''a.xml.pickle'' = Inr (Some [''Old''])
   \<and> run ((sample_env sample_argv [''Foo''])\<lparr> new_Parser := [], parse := (\<lambda>p st. (True, st @ [''Bar''])),
                  parseDoxygenIndexFile := (\<lambda>p st. (True, st @ [''Bar''])),
                  traverse := (\<lambda>st w. rev st) \<rparr>) cached_fs
       = run (sample_env sample_argv [''Foo'']) cached_fs"
proof -
  let ?e = "sample_env sample_argv [''Foo'']"
  have h1: "use_cached_parsing (read_options ?e)" by (simp add: sample_options)
  have h2: "pickle_path (xml_index_file (read_options ?e)) (xml_file (read_options ?e))
              = Some ''a.xml.pickle''"
    by (simp add: sample_options pickle_path_def)
  have h3: "isfile cached_fs ''a.xml.pickle''"
    by (simp add: cached_fs_def isfile_def)
  have h4: "pickle_load cached_fs ''a.xml.pickle'' = Inr (Some [''Old''])"
    by (simp add: cached_fs_def pickle_load_def)
  from cache_keyed_by_path_only [where fs = cached_fs and pp = "''a.xml.pickle''",
         OF h1 h2 h3 h4]
  have "run (?e\<lparr> new_Parser := [], parse := (\<lambda>p st. (True, st @ [''Bar''])),
                  parseDoxygenIndexFile := (\<lambda>p st. (True, st @ [''Bar''])),
                  traverse := (\<lambda>st w. rev st) \<rparr>) cached_fs
       = run ?e cached_fs"
    by (rule conjunct1)
  with h1 h2 h3 h4 show ?thesis by blast
qed

text \<open>
  So a source that has changed since the cache was written is not noticed.  A first run
  on a source that parses to \<open>Foo\<close> leaves a cache file holding \<open>Foo\<close>.  The source then
  changes and parses to \<open>Bar\<close>, which is what a run without cache file hands to the
  writers.  The run on the files left by the first run does not parse, and hands \<open>Foo\<close> to
  the writers.
\<close>

theorem cache_ignores_source_change:
  "pickle_load (files_of (run (sample_env sample_argv [''Foo'']) Map.empty)) ''a.xml.pickle'' = Inr (Some [''Foo''])
   \<and> generated (trace_of (run (sample_env sample_argv [''Bar'']) Map.empty))
       = [(\<lparr>w_class = ''.cdWriterDocstring'', w_package = ''pxr'', w_module = ''Sdf''\<rparr>, ''out/Sdf/__DOC.py'', [''Bar'']),
          (\<lparr>w_class = ''.cdWriterDocstring'', w_package = ''pxr'', w_module = ''Usd''\<rparr>, ''out/Usd/__DOC.py'', [''Bar''])]
   \<and> generated (trace_of (run (sample_env sample_argv [''Bar'']) (files_of (run (sample_env sample_argv [''Foo'']) Map.empty))))
       = [(\<lparr>w_class = ''.cdWriterDocstring'', w_package = ''pxr'', w_module = ''Sdf''\<rparr>, ''out/Sdf/__DOC.py'', [''Foo'']),
          (\<lparr>w_class = ''.cdWriterDocstring'', w_package = ''pxr'', w_module = ''Usd''\<rparr>, ''out/Usd/__DOC.py'', [''Foo''])]
   \<and> (\<forall>q ok. ParseFile q ok
          \<notin> set (trace_of (run (sample_env sample_argv [''Bar'']) (files_of (run (sample_env sample_argv [''Foo'']) Map.empty)))))"
  unfolding sample_run_fresh_files sample_run_changed sample_run_stale
  by (simp add: pickle_load_def)

end
